theory Spec2Isabelle
  imports Main "HOL-Library.Word"
begin

section \<open>JavaScript strings\<close>

text \<open>
  A JavaScript string is a sequence of 16-bit code units. The regular expression of
  \<open>src/main.ts\<close> has no \<open>u\<close> flag, so it works on code units as well, as do
  \<open>indexOf\<close>, \<open>lastIndexOf\<close>, \<open>substring\<close> and \<open>length\<close>.
\<close>

type_synonym codeunit = "16 word"
type_synonym jsstring = "codeunit list"

definition cu :: "char \<Rightarrow> codeunit" where
  "cu c = of_nat (of_char c)"

definition js :: "string \<Rightarrow> jsstring" where
  "js s = map cu s"

text \<open>\<open>String.prototype.indexOf\<close> and \<open>lastIndexOf\<close> for a one-unit needle: \<open>-1\<close> when absent.\<close>

definition indexOf :: "jsstring \<Rightarrow> codeunit \<Rightarrow> int" where
  "indexOf s c = (if c \<in> set s then int (length (takeWhile (\<lambda>x. x \<noteq> c) s)) else - 1)"

definition lastIndexOf :: "jsstring \<Rightarrow> codeunit \<Rightarrow> int" where
  "lastIndexOf s c =
     (if c \<in> set s then int (length s) - 1 - int (length (takeWhile (\<lambda>x. x \<noteq> c) (rev s)))
      else - 1)"

text \<open>
  \<open>String.prototype.substring(start, end)\<close>: both indices are clamped to
  \<open>[0, length]\<close> and swapped when \<open>start > end\<close>. With one argument, \<open>end\<close> is the length.
\<close>

definition substring :: "jsstring \<Rightarrow> int \<Rightarrow> int \<Rightarrow> jsstring" where
  "substring s start end =
     (let n = int (length s);
          a = max 0 (min start n);
          b = max 0 (min end n);
          lo = min a b;
          hi = max a b
      in take (nat (hi - lo)) (drop (nat lo) s))"

definition substringFrom :: "jsstring \<Rightarrow> int \<Rightarrow> jsstring" where
  "substringFrom s start = substring s start (int (length s))"

text \<open>
  \<open>toLowerCase\<close> is modelled on the ASCII letters; every other code unit is left as it is.
  The source uses it only in \<open>linkBaseName.toLowerCase().endsWith('.md')\<close>, and no
  character outside \<open>A-Z\<close> has a Unicode lower case that ends in \<open>.\<close>, \<open>m\<close> or \<open>d\<close>,
  so that test has the same value under the full Unicode mapping.
\<close>

definition toLowerCase :: "jsstring \<Rightarrow> jsstring" where
  "toLowerCase s = map (\<lambda>x. if 65 \<le> x \<and> x \<le> 90 then x + 32 else x) s"

definition endsWith :: "jsstring \<Rightarrow> jsstring \<Rightarrow> bool" where
  "endsWith s t = (length t \<le> length s \<and> drop (length s - length t) s = t)"

section \<open>The regular expression \<open>mdLinkRegex\<close>\<close>

text \<open>
  \<^verbatim>\<open>const mdLinkRegex = /\[([^\]]+)\]\(([^)]+\)?)\)/;\<close>

  The matcher is a backtracking one, as the language defines it: each piece takes the
  rest of the input and a continuation for what follows; a greedy quantifier tries the
  longest repetition first and falls back to a shorter one when the continuation fails.
\<close>

fun lit :: "codeunit \<Rightarrow> jsstring \<Rightarrow> (jsstring \<Rightarrow> 'a option) \<Rightarrow> 'a option" where
  "lit c [] k = None"
| "lit c (x # xs) k = (if x = c then k xs else None)"

text \<open>\<open>[^c]*\<close>, greedy.\<close>

fun star_not :: "codeunit \<Rightarrow> jsstring \<Rightarrow> (jsstring \<Rightarrow> 'a option) \<Rightarrow> 'a option" where
  "star_not c [] k = k []"
| "star_not c (x # xs) k =
     (if x \<noteq> c
      then (case star_not c xs k of Some r \<Rightarrow> Some r | None \<Rightarrow> k (x # xs))
      else k (x # xs))"

text \<open>\<open>[^c]+\<close>, greedy.\<close>

fun plus_not :: "codeunit \<Rightarrow> jsstring \<Rightarrow> (jsstring \<Rightarrow> 'a option) \<Rightarrow> 'a option" where
  "plus_not c [] k = None"
| "plus_not c (x # xs) k = (if x \<noteq> c then star_not c xs k else None)"

text \<open>\<open>c?\<close>, greedy.\<close>

definition opt_lit :: "codeunit \<Rightarrow> jsstring \<Rightarrow> (jsstring \<Rightarrow> 'a option) \<Rightarrow> 'a option" where
  "opt_lit c s k = (case lit c s k of Some r \<Rightarrow> Some r | None \<Rightarrow> k s)"

text \<open>
  An attempt to match the whole pattern at the start of \<open>s\<close>. The result is the matched
  text, group 1 and group 2.
\<close>

definition mdLinkRegex_at :: "jsstring \<Rightarrow> (jsstring \<times> jsstring \<times> jsstring) option" where
  "mdLinkRegex_at s =
     lit (cu CHR ''['') s (\<lambda>s1.
     plus_not (cu CHR '']'') s1 (\<lambda>s2.
     lit (cu CHR '']'') s2 (\<lambda>s3.
     lit (cu CHR ''('') s3 (\<lambda>s4.
     plus_not (cu CHR '')'') s4 (\<lambda>s5.
     opt_lit (cu CHR '')'') s5 (\<lambda>s6.
     lit (cu CHR '')'') s6 (\<lambda>s7.
       Some (take (length s - length s7) s,
             take (length s1 - length s2) s1,
             take (length s4 - length s6) s4))))))))"

text \<open>
  The result of \<open>String.prototype.match\<close> with a regular expression that is not global:
  the first match, scanning the start position from left to right, or \<open>null\<close>.
\<close>

record regexp_match =
  match_index :: nat
  match_0 :: jsstring
  match_1 :: jsstring
  match_2 :: jsstring

fun match_from :: "nat \<Rightarrow> jsstring \<Rightarrow> regexp_match option" where
  "match_from i [] =
     (case mdLinkRegex_at [] of
        Some (m0, m1, m2) \<Rightarrow>
          Some \<lparr>match_index = i, match_0 = m0, match_1 = m1, match_2 = m2\<rparr>
      | None \<Rightarrow> None)"
| "match_from i (x # xs) =
     (case mdLinkRegex_at (x # xs) of
        Some (m0, m1, m2) \<Rightarrow>
          Some \<lparr>match_index = i, match_0 = m0, match_1 = m1, match_2 = m2\<rparr>
      | None \<Rightarrow> match_from (Suc i) xs)"

definition match_mdLinkRegex :: "jsstring \<Rightarrow> regexp_match option" where
  "match_mdLinkRegex s = match_from 0 s"

section \<open>\<open>decodeURIComponent\<close>\<close>

text \<open>
  The built-in \<open>decodeURIComponent\<close>, after the \<open>Decode\<close> operation of ECMAScript with an
  empty reserved set: a code unit other than \<open>%\<close> is copied; \<open>%XX\<close> with the top bit of
  the octet clear gives that code unit; otherwise the octet starts a UTF-8 sequence of
  2 to 4 octets, each of the following ones written \<open>%XX\<close> too, and the code point is
  appended in UTF-16. Every malformed input throws \<open>URIError\<close>.
\<close>

datatype exn = URIError | RangeError | HostError nat

definition hexDigit :: "codeunit \<Rightarrow> nat option" where
  "hexDigit c =
     (if 48 \<le> c \<and> c \<le> 57 then Some (unat c - 48)
      else if 65 \<le> c \<and> c \<le> 70 then Some (unat c - 55)
      else if 97 \<le> c \<and> c \<le> 102 then Some (unat c - 87)
      else None)"

definition hexByte :: "codeunit \<Rightarrow> codeunit \<Rightarrow> nat option" where
  "hexByte a b =
     (case hexDigit a of
        None \<Rightarrow> None
      | Some hi \<Rightarrow> (case hexDigit b of None \<Rightarrow> None | Some lo \<Rightarrow> Some (16 * hi + lo)))"

definition leadingOnes :: "nat \<Rightarrow> nat" where
  "leadingOnes b =
     (if b < 128 then 0 else if b < 192 then 1 else if b < 224 then 2
      else if b < 240 then 3 else if b < 248 then 4 else 5)"

text \<open>The next \<open>n\<close> octets, each written \<open>%XX\<close>, from a text of exactly \<open>3 * n\<close> code units.\<close>

fun continuationOctets :: "nat \<Rightarrow> jsstring \<Rightarrow> nat list option" where
  "continuationOctets 0 s = Some []"
| "continuationOctets (Suc n) (p # a # b # s) =
     (if p \<noteq> cu CHR ''%'' then None
      else (case hexByte a b of
              None \<Rightarrow> None
            | Some octet \<Rightarrow>
                (case continuationOctets n s of
                   None \<Rightarrow> None
                 | Some octets \<Rightarrow> Some (octet # octets))))"
| "continuationOctets (Suc n) s = None"

definition isContinuation :: "nat \<Rightarrow> bool" where
  "isContinuation b = (128 \<le> b \<and> b < 192)"

text \<open>The code point of a well-formed UTF-8 sequence: shortest form, no surrogate, at most \<open>0x10FFFF\<close>.\<close>

definition utf8CodePoint :: "nat list \<Rightarrow> nat option" where
  "utf8CodePoint octets =
     (case octets of
        [b0, b1] \<Rightarrow>
          (let v = (b0 mod 32) * 64 + b1 mod 64
           in if isContinuation b1 \<and> 128 \<le> v then Some v else None)
      | [b0, b1, b2] \<Rightarrow>
          (let v = (b0 mod 16) * 4096 + (b1 mod 64) * 64 + b2 mod 64
           in if isContinuation b1 \<and> isContinuation b2 \<and> 2048 \<le> v
                 \<and> \<not> (55296 \<le> v \<and> v \<le> 57343)
              then Some v else None)
      | [b0, b1, b2, b3] \<Rightarrow>
          (let v = (b0 mod 8) * 262144 + (b1 mod 64) * 4096 + (b2 mod 64) * 64 + b3 mod 64
           in if isContinuation b1 \<and> isContinuation b2 \<and> isContinuation b3
                 \<and> 65536 \<le> v \<and> v \<le> 1114111
              then Some v else None)
      | _ \<Rightarrow> None)"

definition UTF16EncodeCodePoint :: "nat \<Rightarrow> jsstring" where
  "UTF16EncodeCodePoint v =
     (if v \<le> 65535 then [of_nat v]
      else [of_nat ((v - 65536) div 1024 + 55296), of_nat ((v - 65536) mod 1024 + 56320)])"

fun decodeURIComponent :: "jsstring \<Rightarrow> exn + jsstring" where
  "decodeURIComponent [] = Inr []"
| "decodeURIComponent (c # s) =
     (if c \<noteq> cu CHR ''%''
      then (case decodeURIComponent s of Inl e \<Rightarrow> Inl e | Inr r \<Rightarrow> Inr (c # r))
      else (case s of
              a # b # rest \<Rightarrow>
                (case hexByte a b of
                   None \<Rightarrow> Inl URIError
                 | Some octet \<Rightarrow>
                     (let n = leadingOnes octet
                      in if n = 0
                         then (case decodeURIComponent rest of
                                 Inl e \<Rightarrow> Inl e
                               | Inr r \<Rightarrow> Inr (of_nat octet # r))
                         else if n = 1 \<or> 4 < n then Inl URIError
                         else if length rest < 3 * (n - 1) then Inl URIError
                         else (case continuationOctets (n - 1) (take (3 * (n - 1)) rest) of
                                 None \<Rightarrow> Inl URIError
                               | Some octets \<Rightarrow>
                                   (case utf8CodePoint (octet # octets) of
                                      None \<Rightarrow> Inl URIError
                                    | Some v \<Rightarrow>
                                        (case decodeURIComponent (drop (3 * (n - 1)) rest) of
                                           Inl e \<Rightarrow> Inl e
                                         | Inr r \<Rightarrow> Inr (UTF16EncodeCodePoint v @ r))))))
            | _ \<Rightarrow> Inl URIError))"

section \<open>The heuristic of \<open>handleEditorChange\<close>\<close>

text \<open>
  Lines 84 to 95 of \<open>src/main.ts\<close>: the base name of the decoded link path, with the
  \<open>hashIndex\<close> that the later steps read.

  \<^verbatim>\<open>
  let linkBaseName = decodedLinkPath;
  const lastSlashIndex = linkBaseName.lastIndexOf('/');
  if (lastSlashIndex !== -1) { linkBaseName = linkBaseName.substring(lastSlashIndex + 1); }
  const hashIndex = linkBaseName.indexOf('#');
  if (hashIndex !== -1) { linkBaseName = linkBaseName.substring(0, hashIndex); }
  if (linkBaseName.toLowerCase().endsWith('.md')) {
      linkBaseName = linkBaseName.substring(0, linkBaseName.length - 3);
  }
  \<close>
\<close>

definition afterLastSlash :: "jsstring \<Rightarrow> jsstring" where
  "afterLastSlash decodedLinkPath =
     (let linkBaseName = decodedLinkPath;
          lastSlashIndex = lastIndexOf linkBaseName (cu CHR ''/'')
      in if lastSlashIndex \<noteq> - 1 then substringFrom linkBaseName (lastSlashIndex + 1)
         else linkBaseName)"

definition hashIndex :: "jsstring \<Rightarrow> int" where
  "hashIndex decodedLinkPath = indexOf (afterLastSlash decodedLinkPath) (cu CHR ''#'')"

definition linkBaseName :: "jsstring \<Rightarrow> jsstring" where
  "linkBaseName decodedLinkPath =
     (let name1 = afterLastSlash decodedLinkPath;
          name2 = (if hashIndex decodedLinkPath \<noteq> - 1
                   then substring name1 0 (hashIndex decodedLinkPath) else name1)
      in if endsWith (toLowerCase name2) (js ''.md'')
         then substring name2 0 (int (length name2) - 3)
         else name2)"

text \<open>
  Line 112: \<^verbatim>\<open>const headingOrBlockRef = decodedLinkPath.substring(hashIndex + 1);\<close>
  The index was found in the text after the last slash and is applied to the whole path.
\<close>

definition headingOrBlockRef :: "jsstring \<Rightarrow> jsstring" where
  "headingOrBlockRef decodedLinkPath =
     substringFrom decodedLinkPath (hashIndex decodedLinkPath + 1)"

text \<open>Lines 101 to 121: both branches of the inner test set the flag.\<close>

definition isAutoConvertedWikilink :: "jsstring \<Rightarrow> jsstring \<Rightarrow> bool" where
  "isAutoConvertedWikilink displayText decodedLinkPath =
     (let flag1 = (if displayText = linkBaseName decodedLinkPath then True else False)
      in if \<not> flag1 \<and> hashIndex decodedLinkPath \<noteq> - 1
         then (if displayText = headingOrBlockRef decodedLinkPath then True else True)
         else flag1)"

text \<open>Lines 127 to 132: the text that replaces the link.\<close>

definition wikilink :: "jsstring \<Rightarrow> jsstring \<Rightarrow> jsstring" where
  "wikilink displayText decodedLinkPath =
     (let originalWikilinkContent =
            (if hashIndex decodedLinkPath \<noteq> - 1
             then linkBaseName decodedLinkPath @ js ''#'' @ displayText
             else linkBaseName decodedLinkPath)
      in js ''[['' @ originalWikilinkContent @ js '']]'')"

section \<open>The editor, the host and the plugin\<close>

record EditorPosition =
  line :: nat
  ch :: nat

text \<open>The calls that the handler makes on its host, in the order it makes them.\<close>

datatype effect =
    ReplaceRange jsstring EditorPosition EditorPosition
  | SetCursor EditorPosition
  | ConsoleError
  | RequestAnimationFrame

text \<open>
  What the host does when it is called: the configuration read returns a value or
  throws, each of the two editing primitives may throw, and the editor may deliver
  \<open>editor-change\<close> to the handler before \<open>replaceRange\<close> returns. Of the value read,
  line 46 tests only whether it is truthy, which is what \<open>Inr\<close> carries.
\<close>

record host =
  getConfig :: "exn + bool"
  replaceRange_throws :: "exn option"
  setCursor_throws :: "exn option"
  notifies_synchronously :: bool

text \<open>
  The plugin's field \<open>isReplacing\<close>, the document as its lines, the cursor, the number of
  callbacks \<^verbatim>\<open>() => { this.isReplacing = false; }\<close> waiting for the next animation frame,
  and the calls made so far.
\<close>

record world =
  isReplacing :: bool
  doc :: "jsstring list"
  cursor :: EditorPosition
  animationFrameCallbacks :: nat
  calls :: "effect list"

datatype completion = Returned | Threw exn

text \<open>
  \<open>editor.getCursor()\<close> and \<open>editor.getLine(n)\<close>. A line number outside the document has
  no text to return, and the call throws.
\<close>

definition getCursor :: "world \<Rightarrow> EditorPosition" where
  "getCursor w = cursor w"

definition getLine :: "world \<Rightarrow> nat \<Rightarrow> exn + jsstring" where
  "getLine w n = (if n < length (doc w) then Inr (doc w ! n) else Inl RangeError)"

text \<open>
  \<open>editor.replaceRange(text, from, to)\<close> for a span within one line of the document,
  which is the only kind the handler asks for. A primitive that throws leaves the
  document as it was. After the change the editor notifies its listeners; \<open>onChange\<close> is
  the handler as the editor would call it at that moment. Where the editor puts the
  cursor is left open here: the handler sets it next.
\<close>

definition replaceRange ::
  "(world \<Rightarrow> (completion \<times> world) option) \<Rightarrow> host \<Rightarrow> jsstring \<Rightarrow> EditorPosition
     \<Rightarrow> EditorPosition \<Rightarrow> world \<Rightarrow> (completion \<times> world) option" where
  "replaceRange onChange h text from to w =
     (let w1 = w\<lparr>calls := calls w @ [ReplaceRange text from to]\<rparr>
      in case replaceRange_throws h of
           Some e \<Rightarrow> Some (Threw e, w1)
         | None \<Rightarrow>
             if line from = line to \<and> line from < length (doc w1)
             then (let old = doc w1 ! line from;
                       w2 = w1\<lparr>doc := (doc w1)[line from := take (ch from) old @ text @ drop (ch to) old]\<rparr>
                   in if notifies_synchronously h then onChange w2 else Some (Returned, w2))
             else Some (Threw RangeError, w1))"

definition setCursor :: "host \<Rightarrow> EditorPosition \<Rightarrow> world \<Rightarrow> completion \<times> world" where
  "setCursor h pos w =
     (let w1 = w\<lparr>calls := calls w @ [SetCursor pos]\<rparr>
      in case setCursor_throws h of
           Some e \<Rightarrow> (Threw e, w1)
         | None \<Rightarrow> (Returned, w1\<lparr>cursor := pos\<rparr>))"

definition requestAnimationFrame :: "world \<Rightarrow> world" where
  "requestAnimationFrame w =
     w\<lparr>animationFrameCallbacks := Suc (animationFrameCallbacks w),
       calls := calls w @ [RequestAnimationFrame]\<rparr>"

text \<open>The next animation frame: the host runs the callbacks that wait, each clearing the flag.\<close>

definition runAnimationFrame :: "world \<Rightarrow> world" where
  "runAnimationFrame w =
     (if animationFrameCallbacks w = 0 then w
      else w\<lparr>isReplacing := False, animationFrameCallbacks := 0\<rparr>)"

text \<open>
  \<open>handleEditorChange\<close>, lines 28 to 170. The first argument bounds the depth of the
  calls of the handler from within \<open>replaceRange\<close>; \<open>None\<close> means that the bound was reached.
\<close>

primrec handleEditorChange :: "nat \<Rightarrow> host \<Rightarrow> world \<Rightarrow> (completion \<times> world) option" where
  "handleEditorChange 0 h w = None"
| "handleEditorChange (Suc fuel) h w =
     (if isReplacing w then Some (Returned, w)
      else case getConfig h of
        Inl e \<Rightarrow> Some (Returned, w\<lparr>calls := calls w @ [ConsoleError]\<rparr>)
      | Inr useMarkdownLinks \<Rightarrow>
          if \<not> useMarkdownLinks then Some (Returned, w)
          else (let cursor = getCursor w in
            case getLine w (line cursor) of
              Inl e \<Rightarrow> Some (Threw e, w)
            | Inr lineText \<Rightarrow>
                (let textBeforeCursor = substring lineText 0 (int (ch cursor)) in
                 case match_mdLinkRegex textBeforeCursor of
                   None \<Rightarrow> Some (Returned, w)
                 | Some match \<Rightarrow>
                     (let fullMatchText = match_0 match;
                          matchEndIndex = match_index match + length fullMatchText
                      in if matchEndIndex \<noteq> ch cursor then Some (Returned, w)
                         else (let displayText = match_1 match;
                                   linkPath = match_2 match
                               in case decodeURIComponent linkPath of
                                    Inl e \<Rightarrow> Some (Threw e, w)
                                  | Inr decodedLinkPath \<Rightarrow>
                                      if \<not> isAutoConvertedWikilink displayText decodedLinkPath
                                      then Some (Returned, w)
                                      else (let text = wikilink displayText decodedLinkPath;
                                                fromPos = \<lparr>line = line cursor, ch = match_index match\<rparr>;
                                                toPos = cursor;
                                                w1 = w\<lparr>isReplacing := True\<rparr>
                                            in case replaceRange (handleEditorChange fuel h) h text fromPos toPos w1 of
                                                 None \<Rightarrow> None
                                               | Some (Threw e, w2) \<Rightarrow> Some (Threw e, requestAnimationFrame w2)
                                               | Some (Returned, w2) \<Rightarrow>
                                                   (let newCursorPos = \<lparr>line = line fromPos, ch = ch fromPos + length text\<rparr>
                                                    in case setCursor h newCursorPos w2 of
                                                         (Threw e, w3) \<Rightarrow> Some (Threw e, requestAnimationFrame w3)
                                                       | (Returned, w3) \<Rightarrow> Some (Returned, requestAnimationFrame w3))))))))"

text \<open>A fresh plugin on a document: \<open>isReplacing = false\<close>, nothing scheduled, nothing called.\<close>

definition loaded :: "jsstring list \<Rightarrow> EditorPosition \<Rightarrow> world" where
  "loaded ls pos =
     \<lparr>isReplacing = False, doc = ls, cursor = pos, animationFrameCallbacks = 0, calls = []\<rparr>"

definition parenthetical_host :: host where
  "parenthetical_host =
     \<lparr>getConfig = Inr True, replaceRange_throws = None, setCursor_throws = None,
      notifies_synchronously = True\<rparr>"

section \<open>What is observed of a run\<close>

fun isReplaceRange :: "effect \<Rightarrow> bool" where
  "isReplaceRange (ReplaceRange text from to) = True"
| "isReplaceRange e = False"

fun isSetCursor :: "effect \<Rightarrow> bool" where
  "isSetCursor (SetCursor pos) = True"
| "isSetCursor e = False"

text \<open>The number of buffer mutations and of cursor moves that the host was asked for.\<close>

definition mutations :: "world \<Rightarrow> nat" where
  "mutations w = length (filter isReplaceRange (calls w))"

definition cursorMoves :: "world \<Rightarrow> nat" where
  "cursorMoves w = length (filter isSetCursor (calls w))"

text \<open>
  An event triggers a rewrite when the handler passes every test of lines 29 to 124: the
  flag is clear, \<open>useMarkdownLinks\<close> is read as true, the first match in the text before
  the cursor ends at the cursor, its path decodes, and the link counts as converted.
\<close>

definition triggers :: "host \<Rightarrow> world \<Rightarrow> jsstring \<Rightarrow> regexp_match \<Rightarrow> jsstring \<Rightarrow> bool" where
  "triggers h w lineText m decodedLinkPath =
     (\<not> isReplacing w
      \<and> getConfig h = Inr True
      \<and> getLine w (line (getCursor w)) = Inr lineText
      \<and> match_mdLinkRegex (substring lineText 0 (int (ch (getCursor w)))) = Some m
      \<and> match_index m + length (match_0 m) = ch (getCursor w)
      \<and> decodeURIComponent (match_2 m) = Inr decodedLinkPath
      \<and> isAutoConvertedWikilink (match_1 m) decodedLinkPath)"

text \<open>
  The base name in the words of the specification, to compare with \<open>linkBaseName\<close>: the
  text after the last \<open>/\<close>, cut at its first \<open>#\<close>, without a trailing \<open>.md\<close> in any
  letter case.
\<close>

definition spec_baseName :: "jsstring \<Rightarrow> jsstring" where
  "spec_baseName decodedPath =
     (let afterSlash = rev (takeWhile (\<lambda>x. x \<noteq> cu CHR ''/'') (rev decodedPath));
          baseNameNoFragment = takeWhile (\<lambda>x. x \<noteq> cu CHR ''#'') afterSlash;
          n = length baseNameNoFragment
      in if 3 \<le> n \<and> toLowerCase (drop (n - 3) baseNameNoFragment) = js ''.md''
         then take (n - 3) baseNameNoFragment
         else baseNameNoFragment)"

section \<open>Strings and the matcher\<close>

lemma substring_0_take: "substring s 0 (int n) = take n s"
  by (cases "n \<le> length s") (simp_all add: substring_def Let_def min_def max_def)

lemma substringFrom_drop: "0 \<le> i \<Longrightarrow> substringFrom s i = drop (nat i) s"
  by (cases "i \<le> int (length s)")
     (simp_all add: substringFrom_def substring_def Let_def min_def max_def)

lemma lit_result: "lit c s k = Some r \<Longrightarrow> \<exists>s'. k s' = Some r"
  by (cases s) (auto split: if_splits)

lemma star_not_result: "star_not c s k = Some r \<Longrightarrow> \<exists>s'. k s' = Some r"
  by (induction s) (auto split: if_splits option.splits)

lemma plus_not_result: "plus_not c s k = Some r \<Longrightarrow> \<exists>s'. k s' = Some r"
  by (cases s) (auto split: if_splits dest: star_not_result)

lemma opt_lit_result: "opt_lit c s k = Some r \<Longrightarrow> \<exists>s'. k s' = Some r"
  by (auto simp: opt_lit_def split: option.splits dest: lit_result)

text \<open>A match is a piece of the text it was found in.\<close>

lemma mdLinkRegex_at_length:
  assumes "mdLinkRegex_at s = Some (m0, m1, m2)"
  shows "length m0 \<le> length s"
proof -
  from assms obtain k where "m0 = take k s"
    unfolding mdLinkRegex_at_def
    by (auto dest!: lit_result plus_not_result opt_lit_result)
  then show ?thesis by simp
qed

lemma match_from_bounds:
  "match_from i s = Some m \<Longrightarrow>
   i \<le> match_index m \<and> match_index m + length (match_0 m) \<le> i + length s"
proof (induction s arbitrary: i)
  case Nil
  then show ?case
    by (auto split: option.splits dest: mdLinkRegex_at_length)
next
  case (Cons x xs)
  show ?case
  proof (cases "mdLinkRegex_at (x # xs)")
    case None
    with Cons.prems have "match_from (Suc i) xs = Some m" by simp
    from Cons.IH [OF this] show ?thesis by simp
  next
    case (Some r)
    obtain m0 m1 m2 where r: "r = (m0, m1, m2)" by (cases r)
    with Some Cons.prems
    have "m = \<lparr>match_index = i, match_0 = m0, match_1 = m1, match_2 = m2\<rparr>"
      by simp
    moreover from Some r have "length m0 \<le> length (x # xs)"
      by (auto dest: mdLinkRegex_at_length)
    ultimately show ?thesis by simp
  qed
qed







lemma wikilink_note: "wikilink (js ''Note'') (js ''Note.md'') = js ''[[Note]]''"
  by code_simp

section \<open>The paths through the handler\<close>

lemma handle_latched:
  "isReplacing w \<Longrightarrow> handleEditorChange (Suc n) h w = Some (Returned, w)"
  by simp

lemma handle_config_throws:
  "\<not> isReplacing w \<Longrightarrow> getConfig h = Inl e \<Longrightarrow>
   handleEditorChange (Suc n) h w = Some (Returned, w\<lparr>calls := calls w @ [ConsoleError]\<rparr>)"
  by simp

lemma handle_pref_off:
  "getConfig h = Inr False \<Longrightarrow> handleEditorChange (Suc n) h w = Some (Returned, w)"
  by simp

lemma handle_bad_line:
  "\<not> isReplacing w \<Longrightarrow> getConfig h = Inr True \<Longrightarrow> \<not> line (cursor w) < length (doc w) \<Longrightarrow>
   handleEditorChange (Suc n) h w = Some (Threw RangeError, w)"
  by (simp add: getCursor_def getLine_def)

lemma handle_no_match:
  "\<not> isReplacing w \<Longrightarrow> getConfig h = Inr True \<Longrightarrow> line (cursor w) < length (doc w) \<Longrightarrow>
   match_mdLinkRegex (take (ch (cursor w)) (doc w ! line (cursor w))) = None \<Longrightarrow>
   handleEditorChange (Suc n) h w = Some (Returned, w)"
  by (simp add: getCursor_def getLine_def substring_0_take)

lemma handle_not_at_cursor:
  "\<not> isReplacing w \<Longrightarrow> getConfig h = Inr True \<Longrightarrow> line (cursor w) < length (doc w) \<Longrightarrow>
   match_mdLinkRegex (take (ch (cursor w)) (doc w ! line (cursor w))) = Some m \<Longrightarrow>
   match_index m + length (match_0 m) \<noteq> ch (cursor w) \<Longrightarrow>
   handleEditorChange (Suc n) h w = Some (Returned, w)"
  by (simp add: getCursor_def getLine_def substring_0_take)

lemma handle_decode_throws:
  "\<not> isReplacing w \<Longrightarrow> getConfig h = Inr True \<Longrightarrow> line (cursor w) < length (doc w) \<Longrightarrow>
   match_mdLinkRegex (take (ch (cursor w)) (doc w ! line (cursor w))) = Some m \<Longrightarrow>
   match_index m + length (match_0 m) = ch (cursor w) \<Longrightarrow>
   decodeURIComponent (match_2 m) = Inl e \<Longrightarrow>
   handleEditorChange (Suc n) h w = Some (Threw e, w)"
  by (simp add: getCursor_def getLine_def substring_0_take)

lemma handle_not_converted:
  "\<not> isReplacing w \<Longrightarrow> getConfig h = Inr True \<Longrightarrow> line (cursor w) < length (doc w) \<Longrightarrow>
   match_mdLinkRegex (take (ch (cursor w)) (doc w ! line (cursor w))) = Some m \<Longrightarrow>
   match_index m + length (match_0 m) = ch (cursor w) \<Longrightarrow>
   decodeURIComponent (match_2 m) = Inr p \<Longrightarrow>
   \<not> isAutoConvertedWikilink (match_1 m) p \<Longrightarrow>
   handleEditorChange (Suc n) h w = Some (Returned, w)"
  by (simp add: getCursor_def getLine_def substring_0_take)

text \<open>
  The path that replaces: the three ways it ends, by what the host's primitives do. The
  call of the handler from within \<open>replaceRange\<close> finds the flag set and returns.
\<close>

lemma handle_trigger:
  assumes "\<not> isReplacing w" "getConfig h = Inr True" "line (cursor w) < length (doc w)"
    and "match_mdLinkRegex (take (ch (cursor w)) (doc w ! line (cursor w))) = Some m"
    and "match_index m + length (match_0 m) = ch (cursor w)"
    and "decodeURIComponent (match_2 m) = Inr p"
    and "isAutoConvertedWikilink (match_1 m) p"
  shows "handleEditorChange (Suc (Suc n)) h w =
    (let text = wikilink (match_1 m) p;
         fromPos = \<lparr>line = line (cursor w), ch = match_index m\<rparr>;
         newCursorPos = \<lparr>line = line (cursor w), ch = match_index m + length text\<rparr>;
         old = doc w ! line (cursor w);
         w1 = w\<lparr>isReplacing := True,
                calls := calls w @ [ReplaceRange text fromPos (cursor w)]\<rparr>;
         w2 = w1\<lparr>doc := (doc w)[line (cursor w) :=
                        take (match_index m) old @ text @ drop (ch (cursor w)) old],
                 calls := calls w1 @ [SetCursor newCursorPos]\<rparr>
     in case (replaceRange_throws h, setCursor_throws h) of
          (Some e, _) \<Rightarrow> Some (Threw e, requestAnimationFrame w1)
        | (None, Some e) \<Rightarrow> Some (Threw e, requestAnimationFrame w2)
        | (None, None) \<Rightarrow> Some (Returned, requestAnimationFrame (w2\<lparr>cursor := newCursorPos\<rparr>)))"
  using assms
  by (simp add: getCursor_def getLine_def substring_0_take replaceRange_def setCursor_def Let_def
        split: option.splits)

section \<open>The simple round trip\<close>




lemma mutations_append [simp]:
  "mutations (w\<lparr>calls := calls w @ es\<rparr>) = mutations w + length (filter isReplaceRange es)"
  by (simp add: mutations_def)

lemma cursorMoves_append [simp]:
  "cursorMoves (w\<lparr>calls := calls w @ es\<rparr>) = cursorMoves w + length (filter isSetCursor es)"
  by (simp add: cursorMoves_def)

section \<open>A match that does not end at the cursor\<close>

text \<open>
  Claim C3. Whenever the first match of the pattern in the text before the cursor does
  not end at the cursor, the handler returns with no buffer mutation and no cursor move:
  the document and the cursor are as before, whatever the flag and the preference are.
\<close>

theorem C3_non_adjacent_match_ignored:
  assumes "getLine w (line (getCursor w)) = Inr lineText"
    and "match_mdLinkRegex (substring lineText 0 (int (ch (getCursor w)))) = Some m"
    and "match_index m + length (match_0 m) \<noteq> ch (getCursor w)"
  shows "\<exists>w'. handleEditorChange (Suc n) h w = Some (Returned, w')
           \<and> doc w' = doc w \<and> cursor w' = cursor w
           \<and> mutations w' = mutations w \<and> cursorMoves w' = cursorMoves w"
  using assms
  by (cases "getConfig h") (auto simp: mutations_def cursorMoves_def)

text \<open>The input \<open>[Note](Note.md) extra text\<close> with the cursor at the end of the line.\<close>

theorem C3_non_adjacent_match_ignored_witness:
  "getLine (loaded [js ''[Note](Note.md) extra text''] \<lparr>line = 0, ch = 26\<rparr>) 0 =
     Inr (js ''[Note](Note.md) extra text'')
   \<and> match_mdLinkRegex (substring (js ''[Note](Note.md) extra text'') 0 26) =
       Some \<lparr>match_index = 0, match_0 = js ''[Note](Note.md)'', match_1 = js ''Note'',
             match_2 = js ''Note.md''\<rparr>
   \<and> 0 + length (js ''[Note](Note.md)'') \<noteq> (26::nat)
   \<and> (\<exists>w'. handleEditorChange 1 parenthetical_host
               (loaded [js ''[Note](Note.md) extra text''] \<lparr>line = 0, ch = 26\<rparr>) = Some (Returned, w')
          \<and> doc w' = [js ''[Note](Note.md) extra text'']
          \<and> cursor w' = \<lparr>line = 0, ch = 26\<rparr>
          \<and> mutations w' = 0 \<and> cursorMoves w' = 0)"
proof -
  let ?w = "loaded [js ''[Note](Note.md) extra text''] \<lparr>line = 0, ch = 26\<rparr>"
  let ?m = "\<lparr>match_index = 0, match_0 = js ''[Note](Note.md)'', match_1 = js ''Note'',
             match_2 = js ''Note.md''\<rparr>"
  have a1: "getLine ?w (line (getCursor ?w)) = Inr (js ''[Note](Note.md) extra text'')"
    by (simp add: getLine_def getCursor_def loaded_def)
  have a2: "match_mdLinkRegex (substring (js ''[Note](Note.md) extra text'') 0
              (int (ch (getCursor ?w)))) = Some ?m"
    by code_simp
  have a3: "match_index ?m + length (match_0 ?m) \<noteq> ch (getCursor ?w)"
    by (simp add: getCursor_def loaded_def js_def)
  have one: "(1::nat) = Suc 0" by simp
  have obs: "doc ?w = [js ''[Note](Note.md) extra text'']" "cursor ?w = \<lparr>line = 0, ch = 26\<rparr>"
    "mutations ?w = 0" "cursorMoves ?w = 0"
    by (simp_all add: loaded_def mutations_def cursorMoves_def)
  have g: "getCursor ?w = \<lparr>line = 0, ch = 26\<rparr>" by (simp add: getCursor_def loaded_def)
  from C3_non_adjacent_match_ignored [OF a1 a2 a3, of 0 parenthetical_host]
  have "\<exists>w'. handleEditorChange 1 parenthetical_host ?w = Some (Returned, w')
          \<and> doc w' = [js ''[Note](Note.md) extra text'']
          \<and> cursor w' = \<lparr>line = 0, ch = 26\<rparr>
          \<and> mutations w' = 0 \<and> cursorMoves w' = 0"
    unfolding one obs .
  moreover from a1 have "getLine ?w 0 = Inr (js ''[Note](Note.md) extra text'')"
    unfolding g by simp
  moreover from a2 have "match_mdLinkRegex (substring (js ''[Note](Note.md) extra text'') 0 26) = Some ?m"
    unfolding g by simp
  moreover have "0 + length (js ''[Note](Note.md)'') \<noteq> (26::nat)" by (simp add: js_def)
  ultimately show ?thesis by blast
qed

section \<open>The preference\<close>

text \<open>
  Claim C5. When \<open>useMarkdownLinks\<close> is read as false, the user wants double-bracket links
  and the handler returns with the world as it was, for every document and cursor.
\<close>

theorem C5_gated_by_preference:
  "getConfig h = Inr False \<Longrightarrow> handleEditorChange (Suc n) h w = Some (Returned, w)"
  by simp

text \<open>The input of the simple round trip, under the other preference.\<close>

theorem C5_gated_by_preference_witness:
  "getConfig (parenthetical_host\<lparr>getConfig := Inr False\<rparr>) = Inr False
   \<and> handleEditorChange 1 (parenthetical_host\<lparr>getConfig := Inr False\<rparr>)
        (loaded [js ''see [Note](Note.md) more''] \<lparr>line = 0, ch = 19\<rparr>) =
      Some (Returned, loaded [js ''see [Note](Note.md) more''] \<lparr>line = 0, ch = 19\<rparr>)
   \<and> mutations (loaded [js ''see [Note](Note.md) more''] \<lparr>line = 0, ch = 19\<rparr>) = 0"
proof -
  have a: "getConfig (parenthetical_host\<lparr>getConfig := Inr False\<rparr>) = Inr False" by simp
  have one: "(1::nat) = Suc 0" by simp
  show ?thesis
    unfolding one C5_gated_by_preference [OF a]
    by (simp add: mutations_def loaded_def)
qed

text \<open>
  Claim C8. When the read of \<open>useMarkdownLinks\<close> throws, the handler reports the error on
  the console and returns normally: nothing else is called and the document, the cursor
  and the flag are as before.
\<close>

theorem C8_config_unavailable:
  "\<not> isReplacing w \<Longrightarrow> getConfig h = Inl e \<Longrightarrow>
   handleEditorChange (Suc n) h w = Some (Returned, w\<lparr>calls := calls w @ [ConsoleError]\<rparr>)"
  by simp

text \<open>The input of the simple round trip, with a configuration read that throws.\<close>

theorem C8_config_unavailable_witness:
  "\<not> isReplacing (loaded [js ''see [Note](Note.md) more''] \<lparr>line = 0, ch = 19\<rparr>)
   \<and> getConfig (parenthetical_host\<lparr>getConfig := Inl (HostError 0)\<rparr>) = Inl (HostError 0)
   \<and> handleEditorChange 1 (parenthetical_host\<lparr>getConfig := Inl (HostError 0)\<rparr>)
        (loaded [js ''see [Note](Note.md) more''] \<lparr>line = 0, ch = 19\<rparr>) =
      Some (Returned,
        \<lparr>isReplacing = False, doc = [js ''see [Note](Note.md) more''],
         cursor = \<lparr>line = 0, ch = 19\<rparr>, animationFrameCallbacks = 0,
         calls = [ConsoleError]\<rparr>)"
proof -
  let ?w = "loaded [js ''see [Note](Note.md) more''] \<lparr>line = 0, ch = 19\<rparr>"
  have a1: "\<not> isReplacing ?w" by (simp add: loaded_def)
  have a2: "getConfig (parenthetical_host\<lparr>getConfig := Inl (HostError 0)\<rparr>) = Inl (HostError 0)"
    by simp
  have one: "(1::nat) = Suc 0" by simp
  show ?thesis
    unfolding one C8_config_unavailable [OF a1 a2]
    by (simp add: loaded_def)
qed

section \<open>The base name\<close>

lemma getLine_Inr: "getLine w n = Inr l \<longleftrightarrow> n < length (doc w) \<and> doc w ! n = l"
  by (simp add: getLine_def)

lemma indexOf_absent: "indexOf s c = - 1 \<longleftrightarrow> c \<notin> set s"
  by (simp add: indexOf_def)

lemma takeWhile_absent: "c \<notin> set s \<Longrightarrow> takeWhile (\<lambda>x. x \<noteq> c) s = s"
  by (induction s) auto

lemma takeWhile_present: "c \<in> set s \<Longrightarrow> length (takeWhile (\<lambda>x. x \<noteq> c) s) < length s"
  by (induction s) auto

lemma substring_to_indexOf:
  "c \<in> set s \<Longrightarrow> substring s 0 (indexOf s c) = takeWhile (\<lambda>x. x \<noteq> c) s"
proof -
  assume "c \<in> set s"
  then have "indexOf s c = int (length (takeWhile (\<lambda>x. x \<noteq> c) s))"
    by (simp add: indexOf_def)
  then show ?thesis
    by (simp add: substring_0_take takeWhile_eq_take [symmetric])
qed

lemma afterLastSlash_takeWhile:
  "afterLastSlash d = rev (takeWhile (\<lambda>x. x \<noteq> cu CHR ''/'') (rev d))"
proof (cases "cu CHR ''/'' \<in> set d")
  case False
  then show ?thesis
    by (simp add: afterLastSlash_def lastIndexOf_def takeWhile_absent)
next
  case True
  let ?k = "length (takeWhile (\<lambda>x. x \<noteq> cu CHR ''/'') (rev d))"
  from True have k: "?k < length d"
    using takeWhile_present [of "cu CHR ''/''" "rev d"] by simp
  then have idx: "lastIndexOf d (cu CHR ''/'') + 1 = int (length d - ?k)"
    using True by (simp add: lastIndexOf_def)
  have present: "lastIndexOf d (cu CHR ''/'') \<noteq> - 1"
    using True k by (simp add: lastIndexOf_def)
  have "afterLastSlash d = substringFrom d (lastIndexOf d (cu CHR ''/'') + 1)"
    using present by (simp add: afterLastSlash_def Let_def)
  also have "\<dots> = drop (length d - ?k) d"
    unfolding idx by (simp add: substringFrom_drop)
  also have "drop (length d - ?k) d = rev (take ?k (rev d))"
    by (simp add: rev_take)
  also have "take ?k (rev d) = takeWhile (\<lambda>x. x \<noteq> cu CHR ''/'') (rev d)"
    by (simp add: takeWhile_eq_take [symmetric])
  finally show ?thesis .
qed

lemma afterLastSlash_append:
  "cu CHR ''/'' \<notin> set base \<Longrightarrow> afterLastSlash (dir @ js ''/'' @ base) = base"
proof -
  assume "cu CHR ''/'' \<notin> set base"
  then have "takeWhile (\<lambda>x. x \<noteq> cu CHR ''/'') (rev base @ cu CHR ''/'' # rev dir) = rev base"
    by (subst takeWhile_append2) auto
  then show ?thesis by (simp add: afterLastSlash_takeWhile js_def)
qed

lemma afterLastSlash_plain:
  "cu CHR ''/'' \<notin> set base \<Longrightarrow> afterLastSlash base = base"
  by (simp add: afterLastSlash_takeWhile takeWhile_absent)

lemma linkBaseName_spec: "linkBaseName d = spec_baseName d"
proof -
  let ?a = "afterLastSlash d"
  let ?b = "takeWhile (\<lambda>x. x \<noteq> cu CHR ''#'') ?a"
  have name2: "(if hashIndex d \<noteq> - 1 then substring ?a 0 (hashIndex d) else ?a) = ?b"
  proof (cases "cu CHR ''#'' \<in> set ?a")
    case True
    then show ?thesis
      by (simp add: hashIndex_def indexOf_absent substring_to_indexOf)
  next
    case False
    then show ?thesis by (simp add: hashIndex_def indexOf_absent takeWhile_absent)
  qed
  have ends: "endsWith (toLowerCase ?b) (js ''.md'') \<longleftrightarrow>
        3 \<le> length ?b \<and> toLowerCase (drop (length ?b - 3) ?b) = js ''.md''"
    by (simp add: endsWith_def toLowerCase_def js_def drop_map numeral_3_eq_3)
  have strip: "3 \<le> length ?b \<Longrightarrow> substring ?b 0 (int (length ?b) - 3) = take (length ?b - 3) ?b"
  proof -
    assume "3 \<le> length ?b"
    then have "int (length ?b) - 3 = int (length ?b - 3)" by simp
    then show ?thesis by (simp only: substring_0_take)
  qed
  show ?thesis
    unfolding linkBaseName_def spec_baseName_def Let_def name2 ends
    using strip by (auto simp: afterLastSlash_takeWhile)
qed

text \<open>
  Claim C6. For every decoded link path, \<open>linkBaseName\<close> is the text after the last \<open>/\<close>,
  cut at its first \<open>#\<close>, without a trailing \<open>.md\<close> in any letter case. The path
  \<open>folder/Sub%20Note.md\<close> decodes to \<open>folder/Sub Note.md\<close> and has the base name
  \<open>Sub Note\<close>, which is what the display text is compared with and what the wikilink is
  built from: \<open>[Sub Note](folder/Sub%20Note.md)\<close> becomes \<open>[[Sub Note]]\<close>.
\<close>

theorem C6_base_name_normalised:
  "linkBaseName decodedLinkPath = spec_baseName decodedLinkPath
   \<and> decodeURIComponent (js ''folder/Sub%20Note.md'') = Inr (js ''folder/Sub Note.md'')
   \<and> linkBaseName (js ''folder/Sub Note.md'') = js ''Sub Note''
   \<and> isAutoConvertedWikilink (js ''Sub Note'') (js ''folder/Sub Note.md'')
   \<and> wikilink (js ''Sub Note'') (js ''folder/Sub Note.md'') = js ''[[Sub Note]]''
   \<and> handleEditorChange 2 parenthetical_host
        (loaded [js ''[Sub Note](folder/Sub%20Note.md)''] \<lparr>line = 0, ch = 32\<rparr>) =
      Some (Returned,
        \<lparr>isReplacing = True, doc = [js ''[[Sub Note]]''],
         cursor = \<lparr>line = 0, ch = 12\<rparr>, animationFrameCallbacks = 1,
         calls = [ReplaceRange (js ''[[Sub Note]]'') \<lparr>line = 0, ch = 0\<rparr> \<lparr>line = 0, ch = 32\<rparr>,
                  SetCursor \<lparr>line = 0, ch = 12\<rparr>, RequestAnimationFrame]\<rparr>)"
proof -
  have 1: "linkBaseName decodedLinkPath = spec_baseName decodedLinkPath"
    by (rule linkBaseName_spec)
  have 2: "decodeURIComponent (js ''folder/Sub%20Note.md'') = Inr (js ''folder/Sub Note.md'')"
    by code_simp
  have 3: "linkBaseName (js ''folder/Sub Note.md'') = js ''Sub Note''"
    by code_simp
  have 4: "isAutoConvertedWikilink (js ''Sub Note'') (js ''folder/Sub Note.md'')"
    by code_simp
  have 5: "wikilink (js ''Sub Note'') (js ''folder/Sub Note.md'') = js ''[[Sub Note]]''"
    by code_simp
  have 6: "handleEditorChange 2 parenthetical_host
        (loaded [js ''[Sub Note](folder/Sub%20Note.md)''] \<lparr>line = 0, ch = 32\<rparr>) =
      Some (Returned,
        \<lparr>isReplacing = True, doc = [js ''[[Sub Note]]''],
         cursor = \<lparr>line = 0, ch = 12\<rparr>, animationFrameCallbacks = 1,
         calls = [ReplaceRange (js ''[[Sub Note]]'') \<lparr>line = 0, ch = 0\<rparr> \<lparr>line = 0, ch = 32\<rparr>,
                  SetCursor \<lparr>line = 0, ch = 12\<rparr>, RequestAnimationFrame]\<rparr>)"
    by code_simp
  from 1 2 3 4 5 6 show ?thesis by blast
qed

section \<open>Links with a fragment\<close>

lemma fragment_converted:
  "hashIndex p \<noteq> - 1 \<Longrightarrow> isAutoConvertedWikilink d p"
  by (simp add: isAutoConvertedWikilink_def)

lemma fragment_wikilink:
  "hashIndex p \<noteq> - 1 \<Longrightarrow> wikilink d p = js ''[['' @ linkBaseName p @ js ''#'' @ d @ js '']]''"
  by (simp add: wikilink_def)

text \<open>
  Claim C2. When the match ends at the cursor and the base name part of its decoded path
  contains \<open>#\<close>, the link counts as converted whatever its display text is, the
  replacement is \<open>[[\<close>, the base name, \<open>#\<close>, the display text as it was matched, and
  \<open>]]\<close>, and the handler asks the editor to put that text in place of the match.
\<close>

theorem C2_fragment_always_converted:
  assumes "\<not> isReplacing w" and "getConfig h = Inr True"
    and "getLine w (line (getCursor w)) = Inr lineText"
    and "match_mdLinkRegex (substring lineText 0 (int (ch (getCursor w)))) = Some m"
    and "match_index m + length (match_0 m) = ch (getCursor w)"
    and "decodeURIComponent (match_2 m) = Inr decodedLinkPath"
    and "hashIndex decodedLinkPath \<noteq> - 1"
  shows "isAutoConvertedWikilink (match_1 m) decodedLinkPath
    \<and> wikilink (match_1 m) decodedLinkPath =
        js ''[['' @ linkBaseName decodedLinkPath @ js ''#'' @ match_1 m @ js '']]''
    \<and> (\<exists>c w' rest.
          handleEditorChange (Suc (Suc n)) h w = Some (c, w')
        \<and> calls w' =
            calls w @
            ReplaceRange (js ''[['' @ linkBaseName decodedLinkPath @ js ''#'' @ match_1 m @ js '']]'')
              \<lparr>line = line (cursor w), ch = match_index m\<rparr> (cursor w) # rest
        \<and> (replaceRange_throws h = None \<longrightarrow>
             doc w' = (doc w)[line (cursor w) :=
               take (match_index m) lineText
               @ js ''[['' @ linkBaseName decodedLinkPath @ js ''#'' @ match_1 m @ js '']]''
               @ drop (ch (cursor w)) lineText]))"
proof -
  let ?text = "js ''[['' @ linkBaseName decodedLinkPath @ js ''#'' @ match_1 m @ js '']]''"
  have conv: "isAutoConvertedWikilink (match_1 m) decodedLinkPath"
    using assms(7) by (rule fragment_converted)
  have repl: "wikilink (match_1 m) decodedLinkPath = ?text"
    using assms(7) by (rule fragment_wikilink)
  from assms(3) have inr: "line (cursor w) < length (doc w)"
    and old: "doc w ! line (cursor w) = lineText"
    by (simp_all add: getLine_Inr getCursor_def)
  from assms(4) old
  have found: "match_mdLinkRegex (take (ch (cursor w)) (doc w ! line (cursor w))) = Some m"
    by (simp add: substring_0_take getCursor_def)
  from assms(5) have ends: "match_index m + length (match_0 m) = ch (cursor w)"
    by (simp add: getCursor_def)
  have run: "\<exists>c w' rest.
          handleEditorChange (Suc (Suc n)) h w = Some (c, w')
        \<and> calls w' = calls w @ ReplaceRange ?text \<lparr>line = line (cursor w), ch = match_index m\<rparr> (cursor w) # rest
        \<and> (replaceRange_throws h = None \<longrightarrow>
             doc w' = (doc w)[line (cursor w) :=
               take (match_index m) lineText
               @ js ''[['' @ linkBaseName decodedLinkPath @ js ''#'' @ match_1 m @ js '']]''
               @ drop (ch (cursor w)) lineText])"
    unfolding handle_trigger [OF assms(1,2) inr found ends assms(6) conv, of n] repl old Let_def
    by (cases "replaceRange_throws h"; cases "setCursor_throws h")
       (simp_all add: requestAnimationFrame_def)
  from conv repl run show ?thesis by blast
qed

text \<open>
  The input \<open>[My Heading](Note#my-heading)\<close> with the cursor at its end: the display text
  differs from the fragment and the line becomes \<open>[[Note#My Heading]]\<close>.
\<close>

theorem C2_fragment_always_converted_witness:
  "\<not> isReplacing (loaded [js ''[My Heading](Note#my-heading)''] \<lparr>line = 0, ch = 29\<rparr>)
   \<and> getConfig parenthetical_host = Inr True
   \<and> getLine (loaded [js ''[My Heading](Note#my-heading)''] \<lparr>line = 0, ch = 29\<rparr>) 0 =
       Inr (js ''[My Heading](Note#my-heading)'')
   \<and> match_mdLinkRegex (substring (js ''[My Heading](Note#my-heading)'') 0 29) =
       Some \<lparr>match_index = 0, match_0 = js ''[My Heading](Note#my-heading)'',
             match_1 = js ''My Heading'', match_2 = js ''Note#my-heading''\<rparr>
   \<and> decodeURIComponent (js ''Note#my-heading'') = Inr (js ''Note#my-heading'')
   \<and> hashIndex (js ''Note#my-heading'') = 4
   \<and> js ''My Heading'' \<noteq> js ''my-heading''
   \<and> isAutoConvertedWikilink (js ''My Heading'') (js ''Note#my-heading'')
   \<and> wikilink (js ''My Heading'') (js ''Note#my-heading'') = js ''[[Note#My Heading]]''
   \<and> handleEditorChange 2 parenthetical_host
        (loaded [js ''[My Heading](Note#my-heading)''] \<lparr>line = 0, ch = 29\<rparr>) =
      Some (Returned,
        \<lparr>isReplacing = True, doc = [js ''[[Note#My Heading]]''],
         cursor = \<lparr>line = 0, ch = 19\<rparr>, animationFrameCallbacks = 1,
         calls = [ReplaceRange (js ''[[Note#My Heading]]'') \<lparr>line = 0, ch = 0\<rparr> \<lparr>line = 0, ch = 29\<rparr>,
                  SetCursor \<lparr>line = 0, ch = 19\<rparr>, RequestAnimationFrame]\<rparr>)"
proof -
  let ?l = "js ''[My Heading](Note#my-heading)''"
  let ?w = "loaded [?l] \<lparr>line = 0, ch = 29\<rparr>"
  let ?m = "\<lparr>match_index = 0, match_0 = ?l, match_1 = js ''My Heading'',
             match_2 = js ''Note#my-heading''\<rparr>"
  have g: "getCursor ?w = \<lparr>line = 0, ch = 29\<rparr>" by (simp add: getCursor_def loaded_def)
  have a1: "\<not> isReplacing ?w" by (simp add: loaded_def)
  have a2: "getConfig parenthetical_host = Inr True" by (simp add: parenthetical_host_def)
  have a3: "getLine ?w (line (getCursor ?w)) = Inr ?l"
    by (simp add: getLine_def getCursor_def loaded_def)
  have a4: "match_mdLinkRegex (substring ?l 0 (int (ch (getCursor ?w)))) = Some ?m"
    by code_simp
  have a5: "match_index ?m + length (match_0 ?m) = ch (getCursor ?w)"
    unfolding g by (simp add: js_def)
  have a6: "decodeURIComponent (match_2 ?m) = Inr (js ''Note#my-heading'')"
    by code_simp
  have h4: "hashIndex (js ''Note#my-heading'') = 4" by code_simp
  then have a7: "hashIndex (js ''Note#my-heading'') \<noteq> - 1" by simp
  note inst = C2_fragment_always_converted [OF a1 a2 a3 a4 a5 a6 a7, of 0]
  have base: "linkBaseName (js ''Note#my-heading'') = js ''Note''" by code_simp
  have c1: "isAutoConvertedWikilink (js ''My Heading'') (js ''Note#my-heading'')"
    using inst [THEN conjunct1] by simp
  have c2: "wikilink (js ''My Heading'') (js ''Note#my-heading'') = js ''[[Note#My Heading]]''"
    using inst [THEN conjunct2, THEN conjunct1]
    unfolding base by (simp add: js_def)
  have c3: "handleEditorChange 2 parenthetical_host ?w =
      Some (Returned,
        \<lparr>isReplacing = True, doc = [js ''[[Note#My Heading]]''],
         cursor = \<lparr>line = 0, ch = 19\<rparr>, animationFrameCallbacks = 1,
         calls = [ReplaceRange (js ''[[Note#My Heading]]'') \<lparr>line = 0, ch = 0\<rparr> \<lparr>line = 0, ch = 29\<rparr>,
                  SetCursor \<lparr>line = 0, ch = 19\<rparr>, RequestAnimationFrame]\<rparr>)"
    by code_simp
  have d: "js ''My Heading'' \<noteq> js ''my-heading''" by (simp add: js_def cu_def)
  from a3 have b3: "getLine ?w 0 = Inr ?l" unfolding g by simp
  from a4 have b4: "match_mdLinkRegex (substring ?l 0 29) = Some ?m" unfolding g by simp
  from a6 have b6: "decodeURIComponent (js ''Note#my-heading'') = Inr (js ''Note#my-heading'')"
    by simp
  from a1 a2 b3 b4 b6 h4 d c1 c2 c3 show ?thesis by blast
qed

text \<open>
  Claim C10. When the decoded path of the match is a directory prefix, a slash and a last
  part with a \<open>#\<close> in it, the index of that \<open>#\<close> is taken in the last part and then
  applied to the whole path to cut \<open>headingOrBlockRef\<close>; the link counts as converted all
  the same and the replacement is the one of the path without the directory.
\<close>

theorem C10_directory_and_fragment:
  assumes "\<not> isReplacing w" and "getConfig h = Inr True"
    and "getLine w (line (getCursor w)) = Inr lineText"
    and "match_mdLinkRegex (substring lineText 0 (int (ch (getCursor w)))) = Some m"
    and "match_index m + length (match_0 m) = ch (getCursor w)"
    and "decodeURIComponent (match_2 m) = Inr (dir @ js ''/'' @ base)"
    and "cu CHR ''/'' \<notin> set base" and "cu CHR ''#'' \<in> set base"
  shows "hashIndex (dir @ js ''/'' @ base) = indexOf base (cu CHR ''#'')
    \<and> headingOrBlockRef (dir @ js ''/'' @ base) =
        substringFrom (dir @ js ''/'' @ base) (indexOf base (cu CHR ''#'') + 1)
    \<and> isAutoConvertedWikilink (match_1 m) (dir @ js ''/'' @ base)
    \<and> wikilink (match_1 m) (dir @ js ''/'' @ base) = wikilink (match_1 m) base
    \<and> (\<exists>c w' rest.
          handleEditorChange (Suc (Suc n)) h w = Some (c, w')
        \<and> calls w' =
            calls w @
            ReplaceRange (wikilink (match_1 m) base)
              \<lparr>line = line (cursor w), ch = match_index m\<rparr> (cursor w) # rest
        \<and> (replaceRange_throws h = None \<longrightarrow>
             doc w' = (doc w)[line (cursor w) :=
               take (match_index m) lineText @ wikilink (match_1 m) base
               @ drop (ch (cursor w)) lineText]))"
proof -
  let ?p = "dir @ js ''/'' @ base"
  have after: "afterLastSlash ?p = base" "afterLastSlash base = base"
    using assms(7) by (simp_all add: afterLastSlash_append afterLastSlash_plain)
  then have hash: "hashIndex ?p = indexOf base (cu CHR ''#'')"
    and hash': "hashIndex base = indexOf base (cu CHR ''#'')"
    by (simp_all add: hashIndex_def)
  have present: "hashIndex ?p \<noteq> - 1"
    using assms(8) by (simp add: hash indexOf_absent)
  have ref: "headingOrBlockRef ?p = substringFrom ?p (indexOf base (cu CHR ''#'') + 1)"
    by (simp add: headingOrBlockRef_def hash)
  have conv: "isAutoConvertedWikilink (match_1 m) ?p"
    using present by (rule fragment_converted)
  have name: "linkBaseName ?p = linkBaseName base"
    by (simp add: linkBaseName_def after hash hash')
  have same: "wikilink (match_1 m) ?p = wikilink (match_1 m) base"
    by (simp add: wikilink_def name hash hash')
  from assms(3) have inr: "line (cursor w) < length (doc w)"
    and old: "doc w ! line (cursor w) = lineText"
    by (simp_all add: getLine_Inr getCursor_def)
  from assms(4) old
  have found: "match_mdLinkRegex (take (ch (cursor w)) (doc w ! line (cursor w))) = Some m"
    by (simp add: substring_0_take getCursor_def)
  from assms(5) have ends: "match_index m + length (match_0 m) = ch (cursor w)"
    by (simp add: getCursor_def)
  have run: "\<exists>c w' rest.
          handleEditorChange (Suc (Suc n)) h w = Some (c, w')
        \<and> calls w' =
            calls w @
            ReplaceRange (wikilink (match_1 m) base)
              \<lparr>line = line (cursor w), ch = match_index m\<rparr> (cursor w) # rest
        \<and> (replaceRange_throws h = None \<longrightarrow>
             doc w' = (doc w)[line (cursor w) :=
               take (match_index m) lineText @ wikilink (match_1 m) base
               @ drop (ch (cursor w)) lineText])"
    unfolding handle_trigger [OF assms(1,2) inr found ends assms(6) conv, of n] same old Let_def
    by (cases "replaceRange_throws h"; cases "setCursor_throws h")
       (simp_all add: requestAnimationFrame_def)
  from hash ref conv same run show ?thesis by blast
qed

text \<open>
  The input \<open>[title1](folder/Note#title1)\<close>: the text compared with the display text is
  \<open>r/Note#title1\<close>, and the line becomes \<open>[[Note#title1]]\<close>.
\<close>

theorem C10_directory_and_fragment_witness:
  "\<not> isReplacing (loaded [js ''[title1](folder/Note#title1)''] \<lparr>line = 0, ch = 28\<rparr>)
   \<and> getConfig parenthetical_host = Inr True
   \<and> match_mdLinkRegex (substring (js ''[title1](folder/Note#title1)'') 0 28) =
       Some \<lparr>match_index = 0, match_0 = js ''[title1](folder/Note#title1)'',
             match_1 = js ''title1'', match_2 = js ''folder/Note#title1''\<rparr>
   \<and> decodeURIComponent (js ''folder/Note#title1'') = Inr (js ''folder'' @ js ''/'' @ js ''Note#title1'')
   \<and> cu CHR ''/'' \<notin> set (js ''Note#title1'') \<and> cu CHR ''#'' \<in> set (js ''Note#title1'')
   \<and> hashIndex (js ''folder/Note#title1'') = 4
   \<and> headingOrBlockRef (js ''folder/Note#title1'') = js ''r/Note#title1''
   \<and> js ''title1'' \<noteq> js ''r/Note#title1''
   \<and> isAutoConvertedWikilink (js ''title1'') (js ''folder/Note#title1'')
   \<and> wikilink (js ''title1'') (js ''folder/Note#title1'') = js ''[[Note#title1]]''
   \<and> wikilink (js ''title1'') (js ''Note#title1'') = js ''[[Note#title1]]''
   \<and> handleEditorChange 2 parenthetical_host
        (loaded [js ''[title1](folder/Note#title1)''] \<lparr>line = 0, ch = 28\<rparr>) =
      Some (Returned,
        \<lparr>isReplacing = True, doc = [js ''[[Note#title1]]''],
         cursor = \<lparr>line = 0, ch = 15\<rparr>, animationFrameCallbacks = 1,
         calls = [ReplaceRange (js ''[[Note#title1]]'') \<lparr>line = 0, ch = 0\<rparr> \<lparr>line = 0, ch = 28\<rparr>,
                  SetCursor \<lparr>line = 0, ch = 15\<rparr>, RequestAnimationFrame]\<rparr>)"
proof -
  let ?l = "js ''[title1](folder/Note#title1)''"
  let ?w = "loaded [?l] \<lparr>line = 0, ch = 28\<rparr>"
  let ?m = "\<lparr>match_index = 0, match_0 = ?l, match_1 = js ''title1'',
             match_2 = js ''folder/Note#title1''\<rparr>"
  have g: "getCursor ?w = \<lparr>line = 0, ch = 28\<rparr>" by (simp add: getCursor_def loaded_def)
  have split: "js ''folder/Note#title1'' = js ''folder'' @ js ''/'' @ js ''Note#title1''"
    by (simp add: js_def)
  have a1: "\<not> isReplacing ?w" by (simp add: loaded_def)
  have a2: "getConfig parenthetical_host = Inr True" by (simp add: parenthetical_host_def)
  have a3: "getLine ?w (line (getCursor ?w)) = Inr ?l"
    by (simp add: getLine_def getCursor_def loaded_def)
  have a4: "match_mdLinkRegex (substring ?l 0 (int (ch (getCursor ?w)))) = Some ?m"
    by code_simp
  have a5: "match_index ?m + length (match_0 ?m) = ch (getCursor ?w)"
    unfolding g by (simp add: js_def)
  have a6: "decodeURIComponent (match_2 ?m) = Inr (js ''folder'' @ js ''/'' @ js ''Note#title1'')"
    by code_simp
  have a7: "cu CHR ''/'' \<notin> set (js ''Note#title1'')" by (simp add: js_def cu_def)
  have a8: "cu CHR ''#'' \<in> set (js ''Note#title1'')" by (simp add: js_def cu_def)
  note inst = C10_directory_and_fragment [OF a1 a2 a3 a4 a5 a6 a7 a8, of 0, folded split]
  have w0: "wikilink (js ''title1'') (js ''Note#title1'') = js ''[[Note#title1]]''" by code_simp
  have c1: "isAutoConvertedWikilink (js ''title1'') (js ''folder/Note#title1'')"
    using inst [THEN conjunct2, THEN conjunct2, THEN conjunct1] by simp
  have c2: "wikilink (js ''title1'') (js ''folder/Note#title1'') = js ''[[Note#title1]]''"
    using inst [THEN conjunct2, THEN conjunct2, THEN conjunct2, THEN conjunct1] w0
    by (simp only: regexp_match.simps)
  have c3: "hashIndex (js ''folder/Note#title1'') = 4" by code_simp
  have c4: "headingOrBlockRef (js ''folder/Note#title1'') = js ''r/Note#title1''" by code_simp
  have c5: "js ''title1'' \<noteq> js ''r/Note#title1''" by (simp add: js_def)
  have c6: "handleEditorChange 2 parenthetical_host ?w =
      Some (Returned,
        \<lparr>isReplacing = True, doc = [js ''[[Note#title1]]''],
         cursor = \<lparr>line = 0, ch = 15\<rparr>, animationFrameCallbacks = 1,
         calls = [ReplaceRange (js ''[[Note#title1]]'') \<lparr>line = 0, ch = 0\<rparr> \<lparr>line = 0, ch = 28\<rparr>,
                  SetCursor \<lparr>line = 0, ch = 15\<rparr>, RequestAnimationFrame]\<rparr>)"
    by code_simp
  from a4 have b4: "match_mdLinkRegex (substring ?l 0 28) = Some ?m" unfolding g by simp
  from a6 have b6: "decodeURIComponent (js ''folder/Note#title1'') =
      Inr (js ''folder'' @ js ''/'' @ js ''Note#title1'')" by simp
  from a1 a2 b4 b6 a7 a8 c1 c2 c3 c4 c5 c6 w0 show ?thesis by blast
qed

section \<open>Failures of the host\<close>

text \<open>
  Claim C9. On an event that reaches the replacement, an exception of \<open>replaceRange\<close> or
  of \<open>setCursor\<close> leaves the handler as it was thrown. The primitive that threw was
  called once and is not called again, and the reset of the flag has been scheduled: the
  flag is set when the handler is left and clear after the next animation frame.
\<close>

theorem C9_host_failure_propagates:
  assumes "\<not> isReplacing w" and "getConfig h = Inr True"
    and "getLine w (line (getCursor w)) = Inr lineText"
    and "match_mdLinkRegex (substring lineText 0 (int (ch (getCursor w)))) = Some m"
    and "match_index m + length (match_0 m) = ch (getCursor w)"
    and "decodeURIComponent (match_2 m) = Inr decodedLinkPath"
    and "isAutoConvertedWikilink (match_1 m) decodedLinkPath"
  shows "(replaceRange_throws h = Some e \<longrightarrow>
           (\<exists>w'. handleEditorChange (Suc (Suc n)) h w = Some (Threw e, w')
              \<and> mutations w' = Suc (mutations w) \<and> cursorMoves w' = cursorMoves w
              \<and> doc w' = doc w \<and> cursor w' = cursor w
              \<and> isReplacing w'
              \<and> animationFrameCallbacks w' = Suc (animationFrameCallbacks w)
              \<and> \<not> isReplacing (runAnimationFrame w')))
       \<and> (replaceRange_throws h = None \<and> setCursor_throws h = Some e \<longrightarrow>
           (\<exists>w'. handleEditorChange (Suc (Suc n)) h w = Some (Threw e, w')
              \<and> mutations w' = Suc (mutations w) \<and> cursorMoves w' = Suc (cursorMoves w)
              \<and> cursor w' = cursor w
              \<and> isReplacing w'
              \<and> animationFrameCallbacks w' = Suc (animationFrameCallbacks w)
              \<and> \<not> isReplacing (runAnimationFrame w')))"
proof -
  from assms(3) have inr: "line (cursor w) < length (doc w)"
    and old: "doc w ! line (cursor w) = lineText"
    by (simp_all add: getLine_Inr getCursor_def)
  from assms(4) old
  have found: "match_mdLinkRegex (take (ch (cursor w)) (doc w ! line (cursor w))) = Some m"
    by (simp add: substring_0_take getCursor_def)
  from assms(5) have ends: "match_index m + length (match_0 m) = ch (cursor w)"
    by (simp add: getCursor_def)
  show ?thesis
    unfolding handle_trigger [OF assms(1,2) inr found ends assms(6,7), of n] Let_def
    by (simp add: requestAnimationFrame_def runAnimationFrame_def mutations_def cursorMoves_def)
qed

text \<open>
  The input of the simple round trip, once with a \<open>replaceRange\<close> that throws and once
  with a \<open>setCursor\<close> that throws.
\<close>

theorem C9_host_failure_propagates_witness:
  "\<not> isReplacing (loaded [js ''see [Note](Note.md) more''] \<lparr>line = 0, ch = 19\<rparr>)
   \<and> getConfig (parenthetical_host\<lparr>replaceRange_throws := Some (HostError 1)\<rparr>) = Inr True
   \<and> replaceRange_throws (parenthetical_host\<lparr>replaceRange_throws := Some (HostError 1)\<rparr>) =
       Some (HostError 1)
   \<and> (\<exists>w'. handleEditorChange 2 (parenthetical_host\<lparr>replaceRange_throws := Some (HostError 1)\<rparr>)
               (loaded [js ''see [Note](Note.md) more''] \<lparr>line = 0, ch = 19\<rparr>) =
             Some (Threw (HostError 1), w')
          \<and> mutations w' = 1 \<and> cursorMoves w' = 0
          \<and> doc w' = [js ''see [Note](Note.md) more'']
          \<and> isReplacing w' \<and> animationFrameCallbacks w' = 1
          \<and> \<not> isReplacing (runAnimationFrame w'))
   \<and> replaceRange_throws (parenthetical_host\<lparr>setCursor_throws := Some (HostError 2)\<rparr>) = None
   \<and> setCursor_throws (parenthetical_host\<lparr>setCursor_throws := Some (HostError 2)\<rparr>) =
       Some (HostError 2)
   \<and> (\<exists>w'. handleEditorChange 2 (parenthetical_host\<lparr>setCursor_throws := Some (HostError 2)\<rparr>)
               (loaded [js ''see [Note](Note.md) more''] \<lparr>line = 0, ch = 19\<rparr>) =
             Some (Threw (HostError 2), w')
          \<and> mutations w' = 1 \<and> cursorMoves w' = 1
          \<and> isReplacing w' \<and> animationFrameCallbacks w' = 1
          \<and> \<not> isReplacing (runAnimationFrame w'))"
proof -
  let ?l = "js ''see [Note](Note.md) more''"
  let ?w = "loaded [?l] \<lparr>line = 0, ch = 19\<rparr>"
  let ?m = "\<lparr>match_index = 4, match_0 = js ''[Note](Note.md)'', match_1 = js ''Note'',
             match_2 = js ''Note.md''\<rparr>"
  let ?hr = "parenthetical_host\<lparr>replaceRange_throws := Some (HostError 1)\<rparr>"
  let ?hs = "parenthetical_host\<lparr>setCursor_throws := Some (HostError 2)\<rparr>"
  have g: "getCursor ?w = \<lparr>line = 0, ch = 19\<rparr>" by (simp add: getCursor_def loaded_def)
  have a1: "\<not> isReplacing ?w" by (simp add: loaded_def)
  have a2r: "getConfig ?hr = Inr True" by (simp add: parenthetical_host_def)
  have a2s: "getConfig ?hs = Inr True" by (simp add: parenthetical_host_def)
  have a3: "getLine ?w (line (getCursor ?w)) = Inr ?l"
    by (simp add: getLine_def getCursor_def loaded_def)
  have a4: "match_mdLinkRegex (substring ?l 0 (int (ch (getCursor ?w)))) = Some ?m"
    by code_simp
  have a5: "match_index ?m + length (match_0 ?m) = ch (getCursor ?w)"
    unfolding g by (simp add: js_def)
  have a6: "decodeURIComponent (match_2 ?m) = Inr (js ''Note.md'')"
    by code_simp
  have a7: "isAutoConvertedWikilink (match_1 ?m) (js ''Note.md'')"
    by code_simp
  have obs: "mutations ?w = 0" "cursorMoves ?w = 0" "doc ?w = [?l]" "animationFrameCallbacks ?w = 0"
    by (simp_all add: mutations_def cursorMoves_def loaded_def)
  have tr: "replaceRange_throws ?hr = Some (HostError 1)" by simp
  have ts: "replaceRange_throws ?hs = None \<and> setCursor_throws ?hs = Some (HostError 2)"
    by (simp add: parenthetical_host_def)
  have two: "(2::nat) = Suc (Suc 0)" by simp
  from C9_host_failure_propagates [OF a1 a2r a3 a4 a5 a6 a7, of "HostError 1" 0] tr
  have r: "\<exists>w'. handleEditorChange 2 ?hr ?w = Some (Threw (HostError 1), w')
          \<and> mutations w' = 1 \<and> cursorMoves w' = 0
          \<and> doc w' = [?l]
          \<and> isReplacing w' \<and> animationFrameCallbacks w' = 1
          \<and> \<not> isReplacing (runAnimationFrame w')"
    unfolding two obs by auto
  from C9_host_failure_propagates [OF a1 a2s a3 a4 a5 a6 a7, of "HostError 2" 0] ts
  have s: "\<exists>w'. handleEditorChange 2 ?hs ?w = Some (Threw (HostError 2), w')
          \<and> mutations w' = 1 \<and> cursorMoves w' = 1
          \<and> isReplacing w' \<and> animationFrameCallbacks w' = 1
          \<and> \<not> isReplacing (runAnimationFrame w')"
    unfolding two obs by auto
  from a1 a2r tr r ts s show ?thesis by blast
qed

section \<open>Every event\<close>

text \<open>
  The handler ends in one of three ways: with the world as it was, with a report on the
  console and nothing else, or on the path that replaces. The first two do not depend on
  what the editing primitives of the host would do.
\<close>

lemma handle_cases:
  obtains (same) c where
      "\<And>h' k. getConfig h' = getConfig h \<Longrightarrow> handleEditorChange (Suc k) h' w = Some (c, w)"
  | (logged) "\<not> isReplacing w"
      "\<And>h' k. getConfig h' = getConfig h \<Longrightarrow>
         handleEditorChange (Suc k) h' w = Some (Returned, w\<lparr>calls := calls w @ [ConsoleError]\<rparr>)"
  | (rewrite) m p where "\<not> isReplacing w" "getConfig h = Inr True"
      "line (cursor w) < length (doc w)"
      "match_mdLinkRegex (take (ch (cursor w)) (doc w ! line (cursor w))) = Some m"
      "match_index m + length (match_0 m) = ch (cursor w)"
      "decodeURIComponent (match_2 m) = Inr p"
      "isAutoConvertedWikilink (match_1 m) p"
proof (cases "isReplacing w")
  case True
  then show ?thesis using same [of Returned] handle_latched by blast
next
  case latch: False
  show ?thesis
  proof (cases "getConfig h")
    case (Inl e)
    with latch show ?thesis using logged handle_config_throws by metis
  next
    case (Inr b)
    show ?thesis
    proof (cases b)
      case False
      with Inr have "getConfig h = Inr False" by simp
      then show ?thesis using same [of Returned] handle_pref_off by metis
    next
      case True
      with Inr have cfg: "getConfig h = Inr True" by simp
      show ?thesis
      proof (cases "line (cursor w) < length (doc w)")
        case False
        with latch cfg show ?thesis using same [of "Threw RangeError"] handle_bad_line by metis
      next
        case inr: True
        show ?thesis
        proof (cases "match_mdLinkRegex (take (ch (cursor w)) (doc w ! line (cursor w)))")
          case None
          with latch cfg inr show ?thesis using same [of Returned] handle_no_match by metis
        next
          case (Some m)
          show ?thesis
          proof (cases "match_index m + length (match_0 m) = ch (cursor w)")
            case False
            with latch cfg inr Some show ?thesis
              using same [of Returned] handle_not_at_cursor by metis
          next
            case ends: True
            show ?thesis
            proof (cases "decodeURIComponent (match_2 m)")
              case (Inl e)
              with latch cfg inr Some ends show ?thesis
                using same [of "Threw e"] handle_decode_throws by metis
            next
              case dec: (Inr p)
              show ?thesis
              proof (cases "isAutoConvertedWikilink (match_1 m) p")
                case False
                with latch cfg inr Some ends dec show ?thesis
                  using same [of Returned] handle_not_converted by metis
              next
                case True
                with latch cfg inr Some ends dec show ?thesis using rewrite by blast
              qed
            qed
          qed
        qed
      qed
    qed
  qed
qed

lemma match_within:
  assumes "match_mdLinkRegex (take k s) = Some m"
    and "match_index m + length (match_0 m) = k"
  shows "match_index m \<le> k" and "k \<le> length s"
proof -
  from assms(1) have "match_index m + length (match_0 m) \<le> length (take k s)"
    using match_from_bounds [of 0 "take k s" m] by (simp add: match_mdLinkRegex_def)
  with assms(2) show "match_index m \<le> k" and "k \<le> length s" by simp_all
qed

lemma match_from_at:
  "match_from i s = Some m \<Longrightarrow>
   i \<le> match_index m
   \<and> mdLinkRegex_at (drop (match_index m - i) s) = Some (match_0 m, match_1 m, match_2 m)"
proof (induction s arbitrary: i)
  case Nil
  then show ?case by (auto split: option.splits)
next
  case (Cons x xs)
  show ?case
  proof (cases "mdLinkRegex_at (x # xs)")
    case None
    with Cons.prems have "match_from (Suc i) xs = Some m" by simp
    from Cons.IH [OF this]
    have le: "Suc i \<le> match_index m"
      and at: "mdLinkRegex_at (drop (match_index m - Suc i) xs) =
                 Some (match_0 m, match_1 m, match_2 m)"
      by simp_all
    from le have "match_index m - i = Suc (match_index m - Suc i)" by simp
    with le at show ?thesis by simp
  next
    case (Some r)
    obtain m0 m1 m2 where r: "r = (m0, m1, m2)" by (cases r)
    with Some Cons.prems
    have "m = \<lparr>match_index = i, match_0 = m0, match_1 = m1, match_2 = m2\<rparr>"
      by simp
    with Some r show ?thesis by simp
  qed
qed

lemma first_match_is_a_match:
  assumes "match_mdLinkRegex s = Some m"
  shows "mdLinkRegex_at (drop (match_index m) s) = Some (match_0 m, match_1 m, match_2 m)"
  using match_from_at [of 0 s m] assms by (simp add: match_mdLinkRegex_def)

lemma no_bracket_no_link:
  assumes "cu CHR ''['' \<notin> set s"
  shows "mdLinkRegex_at (drop i s) = None"
proof (cases "drop i s")
  case Nil
  then show ?thesis by (simp add: mdLinkRegex_at_def)
next
  case (Cons x xs)
  then have "x \<in> set s" by (metis in_set_dropD list.set_intros(1))
  with assms have "x \<noteq> cu CHR ''[''" by blast
  with Cons show ?thesis by (simp add: mdLinkRegex_at_def)
qed

lemma triggers_paths:
  assumes "triggers h w lineText m p"
  shows "\<not> isReplacing w" "getConfig h = Inr True" "line (cursor w) < length (doc w)"
    "doc w ! line (cursor w) = lineText"
    "match_mdLinkRegex (take (ch (cursor w)) (doc w ! line (cursor w))) = Some m"
    "match_index m + length (match_0 m) = ch (cursor w)"
    "decodeURIComponent (match_2 m) = Inr p"
    "isAutoConvertedWikilink (match_1 m) p"
  using assms
  by (auto simp: triggers_def getLine_Inr getCursor_def substring_0_take)

lemma paths_trigger:
  assumes "\<not> isReplacing w" "getConfig h = Inr True" "line (cursor w) < length (doc w)"
    "match_mdLinkRegex (take (ch (cursor w)) (doc w ! line (cursor w))) = Some m"
    "match_index m + length (match_0 m) = ch (cursor w)"
    "decodeURIComponent (match_2 m) = Inr p"
    "isAutoConvertedWikilink (match_1 m) p"
  shows "triggers h w (doc w ! line (cursor w)) m p"
  using assms
  by (simp add: triggers_def getLine_Inr getCursor_def substring_0_take)

lemma quiet_event:
  assumes "\<And>lineText m p. \<not> triggers h w lineText m p"
  shows "\<exists>c w'. handleEditorChange (Suc (Suc n)) h w = Some (c, w')
           \<and> (w' = w \<or> w' = w\<lparr>calls := calls w @ [ConsoleError]\<rparr>)
           \<and> mutations w' = mutations w \<and> cursorMoves w' = cursorMoves w
           \<and> doc w' = doc w \<and> cursor w' = cursor w"
proof (cases rule: handle_cases [of h w])
  case (same c)
  from same [of h "Suc n"] show ?thesis by simp
next
  case logged
  from logged(2) [of h "Suc n"] show ?thesis by (simp add: mutations_def cursorMoves_def)
next
  case (rewrite m p)
  then have "triggers h w (doc w ! line (cursor w)) m p" by (rule paths_trigger)
  with assms show ?thesis by blast
qed

lemma rewriting_event:
  assumes "triggers h w lineText m p"
  shows "\<exists>c w'. handleEditorChange (Suc (Suc n)) h w = Some (c, w')
       \<and> match_index m \<le> ch (cursor w) \<and> ch (cursor w) \<le> length lineText
       \<and> calls w' =
           calls w
           @ [ReplaceRange (wikilink (match_1 m) p)
                \<lparr>line = line (cursor w), ch = match_index m\<rparr> (cursor w)]
           @ (case replaceRange_throws h of
                Some e \<Rightarrow> []
              | None \<Rightarrow> [SetCursor \<lparr>line = line (cursor w),
                                    ch = match_index m + length (wikilink (match_1 m) p)\<rparr>])
           @ [RequestAnimationFrame]
       \<and> mutations w' = Suc (mutations w)
       \<and> cursorMoves w' =
           (case replaceRange_throws h of
              Some e \<Rightarrow> cursorMoves w
            | None \<Rightarrow> Suc (cursorMoves w))
       \<and> doc w' =
           (case replaceRange_throws h of
              Some e \<Rightarrow> doc w
            | None \<Rightarrow> (doc w)[line (cursor w) :=
                        take (match_index m) lineText @ wikilink (match_1 m) p
                        @ drop (ch (cursor w)) lineText])
       \<and> (replaceRange_throws h = None \<longrightarrow>
             (doc w')[line (cursor w) := lineText] = doc w
           \<and> take (match_index m) (doc w' ! line (cursor w)) = take (match_index m) lineText
           \<and> drop (match_index m + length (wikilink (match_1 m) p)) (doc w' ! line (cursor w)) =
               drop (ch (cursor w)) lineText)"
proof -
  note t = triggers_paths [OF assms]
  let ?l = "line (cursor w)"
  let ?text = "wikilink (match_1 m) p"
  from match_within [OF t(5,6)] t(4)
  have le: "match_index m \<le> ch (cursor w)" and within: "ch (cursor w) \<le> length lineText"
    by simp_all
  then have len: "length (take (match_index m) lineText) = match_index m" by simp
  have restore: "((doc w)[?l := take (match_index m) lineText @ ?text @ drop (ch (cursor w)) lineText])
                   [?l := lineText] = doc w"
    using t(4) list_update_id [of "doc w" "line (cursor w)"] by simp
  have front: "take (match_index m) (take (match_index m) lineText @ ?text @ drop (ch (cursor w)) lineText)
      = take (match_index m) lineText"
    using len by simp
  have behind: "drop (match_index m + length ?text)
        (take (match_index m) lineText @ ?text @ drop (ch (cursor w)) lineText)
      = drop (ch (cursor w)) lineText"
    using len by simp
  show ?thesis
  proof (cases "replaceRange_throws h")
    case (Some e)
    show ?thesis
      unfolding handle_trigger [OF t(1,2,3,5,6,7,8), of n] Let_def t(4)
      using Some le within t(3)
      by (simp add: requestAnimationFrame_def mutations_def cursorMoves_def)
  next
    case None
    show ?thesis
      unfolding handle_trigger [OF t(1,2,3,5,6,7,8), of n] Let_def t(4)
      using None le within t(3) restore front behind
      by (cases "setCursor_throws h")
         (simp_all add: requestAnimationFrame_def mutations_def cursorMoves_def)
  qed
qed

lemma no_link_no_trigger:
  assumes "getLine w (line (getCursor w)) = Inr lineText"
    and "\<And>i m0 m1 m2.
           mdLinkRegex_at (drop i (substring lineText 0 (int (ch (getCursor w))))) = Some (m0, m1, m2)
           \<Longrightarrow> i + length m0 \<noteq> ch (getCursor w)"
  shows "\<not> triggers h w lineText' m p"
proof
  assume t: "triggers h w lineText' m p"
  with assms(1) have same: "lineText' = lineText" by (simp add: triggers_def)
  from t have found: "match_mdLinkRegex (substring lineText 0 (int (ch (getCursor w)))) = Some m"
    and ends: "match_index m + length (match_0 m) = ch (getCursor w)"
    unfolding same by (simp_all add: triggers_def)
  from assms(2) [OF first_match_is_a_match [OF found]] ends show False by simp
qed

text \<open>
  Claim C7, as it holds of the code. On an event that triggers a rewrite the handler asks
  for exactly one buffer mutation, the replacement of the span from the start of the
  match to the cursor by the wikilink, and, unless \<open>replaceRange\<close> throws, for exactly one
  cursor move; when \<open>replaceRange\<close> does not throw, the other lines are as before, and on
  the cursor's line the text before the start of the match and the text after the cursor
  are as before. On an event that does not trigger, the handler asks for no mutation and
  no cursor move and leaves the document and the cursor as they were; this is so in
  particular when no match of the pattern in the text before the cursor ends at the
  cursor.
\<close>

theorem C7_one_mutation_per_trigger:
  "(\<forall>lineText m p. triggers h w lineText m p \<longrightarrow>
      (\<exists>c w'. handleEditorChange (Suc (Suc n)) h w = Some (c, w')
         \<and> match_index m \<le> ch (cursor w) \<and> ch (cursor w) \<le> length lineText
         \<and> calls w' =
             calls w
             @ [ReplaceRange (wikilink (match_1 m) p)
                  \<lparr>line = line (cursor w), ch = match_index m\<rparr> (cursor w)]
             @ (case replaceRange_throws h of
                  Some e \<Rightarrow> []
                | None \<Rightarrow> [SetCursor \<lparr>line = line (cursor w),
                                      ch = match_index m + length (wikilink (match_1 m) p)\<rparr>])
             @ [RequestAnimationFrame]
         \<and> mutations w' = Suc (mutations w)
         \<and> cursorMoves w' =
             (case replaceRange_throws h of
                Some e \<Rightarrow> cursorMoves w
              | None \<Rightarrow> Suc (cursorMoves w))
         \<and> doc w' =
             (case replaceRange_throws h of
                Some e \<Rightarrow> doc w
              | None \<Rightarrow> (doc w)[line (cursor w) :=
                          take (match_index m) lineText @ wikilink (match_1 m) p
                          @ drop (ch (cursor w)) lineText])
         \<and> (replaceRange_throws h = None \<longrightarrow>
               (doc w')[line (cursor w) := lineText] = doc w
             \<and> take (match_index m) (doc w' ! line (cursor w)) = take (match_index m) lineText
             \<and> drop (match_index m + length (wikilink (match_1 m) p)) (doc w' ! line (cursor w)) =
                 drop (ch (cursor w)) lineText)))
   \<and> ((\<forall>lineText m p. \<not> triggers h w lineText m p) \<longrightarrow>
      (\<exists>c w'. handleEditorChange (Suc (Suc n)) h w = Some (c, w')
         \<and> (w' = w \<or> w' = w\<lparr>calls := calls w @ [ConsoleError]\<rparr>)
         \<and> mutations w' = mutations w \<and> cursorMoves w' = cursorMoves w
         \<and> doc w' = doc w \<and> cursor w' = cursor w))
   \<and> (\<forall>lineText.
         getLine w (line (getCursor w)) = Inr lineText
         \<and> (\<forall>i m0 m1 m2.
               mdLinkRegex_at (drop i (substring lineText 0 (int (ch (getCursor w))))) =
                 Some (m0, m1, m2)
               \<longrightarrow> i + length m0 \<noteq> ch (getCursor w))
         \<longrightarrow>
         (\<exists>c w'. handleEditorChange (Suc (Suc n)) h w = Some (c, w')
            \<and> mutations w' = mutations w \<and> cursorMoves w' = cursorMoves w
            \<and> doc w' = doc w \<and> cursor w' = cursor w))"
proof (intro conjI allI impI)
  fix lineText m p
  assume "triggers h w lineText m p"
  then show "\<exists>c w'. handleEditorChange (Suc (Suc n)) h w = Some (c, w')
         \<and> match_index m \<le> ch (cursor w) \<and> ch (cursor w) \<le> length lineText
         \<and> calls w' =
             calls w
             @ [ReplaceRange (wikilink (match_1 m) p)
                  \<lparr>line = line (cursor w), ch = match_index m\<rparr> (cursor w)]
             @ (case replaceRange_throws h of
                  Some e \<Rightarrow> []
                | None \<Rightarrow> [SetCursor \<lparr>line = line (cursor w),
                                      ch = match_index m + length (wikilink (match_1 m) p)\<rparr>])
             @ [RequestAnimationFrame]
         \<and> mutations w' = Suc (mutations w)
         \<and> cursorMoves w' =
             (case replaceRange_throws h of
                Some e \<Rightarrow> cursorMoves w
              | None \<Rightarrow> Suc (cursorMoves w))
         \<and> doc w' =
             (case replaceRange_throws h of
                Some e \<Rightarrow> doc w
              | None \<Rightarrow> (doc w)[line (cursor w) :=
                          take (match_index m) lineText @ wikilink (match_1 m) p
                          @ drop (ch (cursor w)) lineText])
         \<and> (replaceRange_throws h = None \<longrightarrow>
               (doc w')[line (cursor w) := lineText] = doc w
             \<and> take (match_index m) (doc w' ! line (cursor w)) = take (match_index m) lineText
             \<and> drop (match_index m + length (wikilink (match_1 m) p)) (doc w' ! line (cursor w)) =
                 drop (ch (cursor w)) lineText)"
    by (rule rewriting_event)
next
  assume "\<forall>lineText m p. \<not> triggers h w lineText m p"
  then have "\<And>lineText m p. \<not> triggers h w lineText m p" by blast
  then show "\<exists>c w'. handleEditorChange (Suc (Suc n)) h w = Some (c, w')
         \<and> (w' = w \<or> w' = w\<lparr>calls := calls w @ [ConsoleError]\<rparr>)
         \<and> mutations w' = mutations w \<and> cursorMoves w' = cursorMoves w
         \<and> doc w' = doc w \<and> cursor w' = cursor w"
    by (rule quiet_event)
next
  fix lineText
  assume a: "getLine w (line (getCursor w)) = Inr lineText
         \<and> (\<forall>i m0 m1 m2.
               mdLinkRegex_at (drop i (substring lineText 0 (int (ch (getCursor w))))) =
                 Some (m0, m1, m2)
               \<longrightarrow> i + length m0 \<noteq> ch (getCursor w))"
  then have "\<And>lineText' m p. \<not> triggers h w lineText' m p"
    using no_link_no_trigger [of w lineText h] by blast
  from quiet_event [OF this, of n]
  show "\<exists>c w'. handleEditorChange (Suc (Suc n)) h w = Some (c, w')
            \<and> mutations w' = mutations w \<and> cursorMoves w' = cursorMoves w
            \<and> doc w' = doc w \<and> cursor w' = cursor w"
    by blast
qed

text \<open>
  The simple round trip triggers: one mutation and one cursor move. A line whose first
  match ends before the cursor and a line without a link do not: no mutation.
\<close>

theorem C7_one_mutation_per_trigger_witness:
  "triggers parenthetical_host
     (loaded [js ''see [Note](Note.md) more''] \<lparr>line = 0, ch = 19\<rparr>)
     (js ''see [Note](Note.md) more'')
     \<lparr>match_index = 4, match_0 = js ''[Note](Note.md)'', match_1 = js ''Note'',
      match_2 = js ''Note.md''\<rparr>
     (js ''Note.md'')
   \<and> (\<exists>c w'. handleEditorChange 2 parenthetical_host
              (loaded [js ''see [Note](Note.md) more''] \<lparr>line = 0, ch = 19\<rparr>) = Some (c, w')
       \<and> calls w' =
           [ReplaceRange (js ''[[Note]]'') \<lparr>line = 0, ch = 4\<rparr> \<lparr>line = 0, ch = 19\<rparr>,
            SetCursor \<lparr>line = 0, ch = 12\<rparr>, RequestAnimationFrame]
       \<and> mutations w' = 1 \<and> cursorMoves w' = 1
       \<and> doc w' = [js ''see [[Note]] more''])
   \<and> match_mdLinkRegex (substring (js ''[Note](Note.md) extra text'') 0 26) =
       Some \<lparr>match_index = 0, match_0 = js ''[Note](Note.md)'', match_1 = js ''Note'',
             match_2 = js ''Note.md''\<rparr>
   \<and> (\<exists>c w'. handleEditorChange 2 parenthetical_host
              (loaded [js ''[Note](Note.md) extra text''] \<lparr>line = 0, ch = 26\<rparr>) = Some (c, w')
       \<and> mutations w' = 0 \<and> cursorMoves w' = 0
       \<and> doc w' = [js ''[Note](Note.md) extra text''])
   \<and> cu CHR ''['' \<notin> set (js ''plain text'')
   \<and> (\<exists>c w'. handleEditorChange 2 parenthetical_host
              (loaded [js ''plain text''] \<lparr>line = 0, ch = 10\<rparr>) = Some (c, w')
       \<and> mutations w' = 0 \<and> cursorMoves w' = 0
       \<and> doc w' = [js ''plain text''])"
proof -
  let ?h = parenthetical_host
  let ?l = "js ''see [Note](Note.md) more''"
  let ?w = "loaded [?l] \<lparr>line = 0, ch = 19\<rparr>"
  let ?m = "\<lparr>match_index = 4, match_0 = js ''[Note](Note.md)'', match_1 = js ''Note'',
             match_2 = js ''Note.md''\<rparr>"
  let ?lv = "js ''[Note](Note.md) extra text''"
  let ?v = "loaded [?lv] \<lparr>line = 0, ch = 26\<rparr>"
  let ?mv = "\<lparr>match_index = 0, match_0 = js ''[Note](Note.md)'', match_1 = js ''Note'',
             match_2 = js ''Note.md''\<rparr>"
  let ?lu = "js ''plain text''"
  let ?u = "loaded [?lu] \<lparr>line = 0, ch = 10\<rparr>"
  have two: "(2::nat) = Suc (Suc 0)" by simp
  have host: "replaceRange_throws ?h = None" by (simp add: parenthetical_host_def)

  \<comment> \<open>an event that triggers\<close>
  have t: "triggers ?h ?w ?l ?m (js ''Note.md'')" by code_simp
  have w0: "calls ?w = []" "mutations ?w = 0" "cursorMoves ?w = 0" "doc ?w = [?l]"
    "cursor ?w = \<lparr>line = 0, ch = 19\<rparr>"
    by (simp_all add: loaded_def mutations_def cursorMoves_def)
  have wl: "wikilink (js ''Note'') (js ''Note.md'') = js ''[[Note]]''" by (rule wikilink_note)
  have line: "take 4 ?l @ js ''[[Note]]'' @ drop 19 ?l = js ''see [[Note]] more''"
    by (simp add: js_def)
  have len: "4 + length (js ''[[Note]]'') = (12::nat)" by (simp add: js_def)
  from C7_one_mutation_per_trigger [of ?h ?w 0, THEN conjunct1, rule_format, OF t]
  obtain c w' where r: "handleEditorChange (Suc (Suc 0)) ?h ?w = Some (c, w')"
    and "calls w' =
           [ReplaceRange (js ''[[Note]]'') \<lparr>line = 0, ch = 4\<rparr> \<lparr>line = 0, ch = 19\<rparr>,
            SetCursor \<lparr>line = 0, ch = 12\<rparr>, RequestAnimationFrame]"
    and "mutations w' = 1" and "cursorMoves w' = 1"
    and "doc w' = [js ''see [[Note]] more'']"
    by (auto simp: host w0 wl line len simp del: handleEditorChange.simps)
  then have first: "\<exists>c w'. handleEditorChange 2 ?h ?w = Some (c, w')
       \<and> calls w' =
           [ReplaceRange (js ''[[Note]]'') \<lparr>line = 0, ch = 4\<rparr> \<lparr>line = 0, ch = 19\<rparr>,
            SetCursor \<lparr>line = 0, ch = 12\<rparr>, RequestAnimationFrame]
       \<and> mutations w' = 1 \<and> cursorMoves w' = 1
       \<and> doc w' = [js ''see [[Note]] more'']"
    unfolding two by blast

  \<comment> \<open>an event whose first match ends before the cursor\<close>
  have gv: "getLine ?v (line (getCursor ?v)) = Inr ?lv" "ch (getCursor ?v) = 26"
    by (simp_all add: getLine_def getCursor_def loaded_def)
  have mv: "match_mdLinkRegex (substring ?lv 0 26) = Some ?mv" by code_simp
  have quiet: "\<forall>lineText m p. \<not> triggers ?h ?v lineText m p"
  proof (intro allI notI)
    fix lineText m p
    assume a: "triggers ?h ?v lineText m p"
    with gv(1) have "lineText = ?lv" by (simp add: triggers_def)
    with a gv(2) mv have "m = ?mv" and "match_index m + length (match_0 m) = 26"
      by (simp_all add: triggers_def)
    then show False by (simp add: js_def)
  qed
  have v0: "mutations ?v = 0" "cursorMoves ?v = 0" "doc ?v = [?lv]"
    by (simp_all add: loaded_def mutations_def cursorMoves_def)
  from C7_one_mutation_per_trigger [of ?h ?v 0, THEN conjunct2, THEN conjunct1, THEN mp, OF quiet]
  have second: "\<exists>c w'. handleEditorChange 2 ?h ?v = Some (c, w')
       \<and> mutations w' = 0 \<and> cursorMoves w' = 0 \<and> doc w' = [?lv]"
    unfolding two v0 by blast

  \<comment> \<open>a line without a link\<close>
  have plain: "cu CHR ''['' \<notin> set ?lu" by (simp add: js_def cu_def)
  then have plain': "cu CHR ''['' \<notin> set (substring ?lu 0 (int (ch (getCursor ?u))))"
    by (auto simp: substring_0_take dest: in_set_takeD)
  have gu: "getLine ?u (line (getCursor ?u)) = Inr ?lu"
    by (simp add: getLine_def getCursor_def loaded_def)
  have none: "\<forall>i m0 m1 m2.
       mdLinkRegex_at (drop i (substring ?lu 0 (int (ch (getCursor ?u))))) = Some (m0, m1, m2)
       \<longrightarrow> i + length m0 \<noteq> ch (getCursor ?u)"
    using no_bracket_no_link [OF plain'] by simp
  have u0: "mutations ?u = 0" "cursorMoves ?u = 0" "doc ?u = [?lu]"
    by (simp_all add: loaded_def mutations_def cursorMoves_def)
  from C7_one_mutation_per_trigger [of ?h ?u 0, THEN conjunct2, THEN conjunct2, THEN spec,
      of ?lu, THEN mp, OF conjI [OF gu none]]
  have third: "\<exists>c w'. handleEditorChange 2 ?h ?u = Some (c, w')
       \<and> mutations w' = 0 \<and> cursorMoves w' = 0 \<and> doc w' = [?lu]"
    unfolding two u0 by blast
  from t first mv second plain third show ?thesis by blast
qed

text \<open>
  Claim C7 as it is worded asks for exactly one cursor move on every event that triggers.
  On the input of the simple round trip with a \<open>replaceRange\<close> that throws, the event
  triggers, the mutation is asked for once, and the exception leaves the \<open>try\<close> block
  before \<open>setCursor\<close> is reached: there is no cursor move.
\<close>

theorem C7_counterexample:
  "triggers (parenthetical_host\<lparr>replaceRange_throws := Some (HostError 1)\<rparr>)
     (loaded [js ''see [Note](Note.md) more''] \<lparr>line = 0, ch = 19\<rparr>)
     (js ''see [Note](Note.md) more'')
     \<lparr>match_index = 4, match_0 = js ''[Note](Note.md)'', match_1 = js ''Note'',
      match_2 = js ''Note.md''\<rparr>
     (js ''Note.md'')
   \<and> handleEditorChange 2 (parenthetical_host\<lparr>replaceRange_throws := Some (HostError 1)\<rparr>)
        (loaded [js ''see [Note](Note.md) more''] \<lparr>line = 0, ch = 19\<rparr>) =
      Some (Threw (HostError 1),
        \<lparr>isReplacing = True, doc = [js ''see [Note](Note.md) more''],
         cursor = \<lparr>line = 0, ch = 19\<rparr>, animationFrameCallbacks = 1,
         calls = [ReplaceRange (js ''[[Note]]'') \<lparr>line = 0, ch = 4\<rparr> \<lparr>line = 0, ch = 19\<rparr>,
                  RequestAnimationFrame]\<rparr>)
   \<and> mutations
        \<lparr>isReplacing = True, doc = [js ''see [Note](Note.md) more''],
         cursor = \<lparr>line = 0, ch = 19\<rparr>, animationFrameCallbacks = 1,
         calls = [ReplaceRange (js ''[[Note]]'') \<lparr>line = 0, ch = 4\<rparr> \<lparr>line = 0, ch = 19\<rparr>,
                  RequestAnimationFrame]\<rparr> = 1
   \<and> cursorMoves
        \<lparr>isReplacing = True, doc = [js ''see [Note](Note.md) more''],
         cursor = \<lparr>line = 0, ch = 19\<rparr>, animationFrameCallbacks = 1,
         calls = [ReplaceRange (js ''[[Note]]'') \<lparr>line = 0, ch = 4\<rparr> \<lparr>line = 0, ch = 19\<rparr>,
                  RequestAnimationFrame]\<rparr> = 0"
  by code_simp

section \<open>Re-entrancy\<close>

text \<open>
  Claim C4. With the flag \<open>isReplacing\<close> set the handler returns at once and the world is
  as it was. The flag is set when \<open>replaceRange\<close> is called, so the handler that the editor
  notifies from within that call is the same as a listener that does nothing, and a run
  asks for at most one mutation whether the editor notifies synchronously or not. The
  handler itself never clears the flag: after a mutation the flag is set and one callback
  waits, and the flag is clear after the next animation frame.
\<close>

theorem C4_reentrancy_latch:
  "(isReplacing w \<longrightarrow> handleEditorChange (Suc n) h w = Some (Returned, w))
   \<and> replaceRange (handleEditorChange (Suc n) h) h text fromPos toPos (w\<lparr>isReplacing := True\<rparr>) =
       replaceRange (\<lambda>w2. Some (Returned, w2)) h text fromPos toPos (w\<lparr>isReplacing := True\<rparr>)
   \<and> (\<exists>c w'. handleEditorChange (Suc (Suc n)) h w = Some (c, w')
         \<and> mutations w' \<le> Suc (mutations w)
         \<and> isReplacing w' = (isReplacing w \<or> mutations w' = Suc (mutations w))
         \<and> (mutations w' = Suc (mutations w) \<longrightarrow>
               animationFrameCallbacks w' = Suc (animationFrameCallbacks w)
             \<and> \<not> isReplacing (runAnimationFrame w')))
   \<and> handleEditorChange (Suc (Suc n)) (h\<lparr>notifies_synchronously := True\<rparr>) w =
       handleEditorChange (Suc (Suc n)) (h\<lparr>notifies_synchronously := False\<rparr>) w"
proof -
  have latched: "isReplacing w \<longrightarrow> handleEditorChange (Suc n) h w = Some (Returned, w)"
    by simp
  have inner: "replaceRange (handleEditorChange (Suc n) h) h text fromPos toPos (w\<lparr>isReplacing := True\<rparr>) =
       replaceRange (\<lambda>w2. Some (Returned, w2)) h text fromPos toPos (w\<lparr>isReplacing := True\<rparr>)"
    by (simp add: replaceRange_def Let_def split: option.splits)
  have outer: "\<exists>c w'. handleEditorChange (Suc (Suc n)) h w = Some (c, w')
         \<and> mutations w' \<le> Suc (mutations w)
         \<and> isReplacing w' = (isReplacing w \<or> mutations w' = Suc (mutations w))
         \<and> (mutations w' = Suc (mutations w) \<longrightarrow>
               animationFrameCallbacks w' = Suc (animationFrameCallbacks w)
             \<and> \<not> isReplacing (runAnimationFrame w'))"
  proof (cases rule: handle_cases [of h w])
    case (same c)
    from same [of h "Suc n"] show ?thesis by simp
  next
    case logged
    from logged(2) [of h "Suc n"] logged(1) show ?thesis by (simp add: mutations_def)
  next
    case (rewrite m p)
    show ?thesis
      unfolding handle_trigger [OF rewrite, of n] Let_def
      using rewrite(1)
      by (cases "replaceRange_throws h"; cases "setCursor_throws h")
         (simp_all add: requestAnimationFrame_def runAnimationFrame_def mutations_def)
  qed
  have indep: "handleEditorChange (Suc (Suc n)) (h\<lparr>notifies_synchronously := True\<rparr>) w =
       handleEditorChange (Suc (Suc n)) (h\<lparr>notifies_synchronously := False\<rparr>) w"
  proof (cases rule: handle_cases [of h w])
    case (same c)
    from same [of "h\<lparr>notifies_synchronously := True\<rparr>" "Suc n"]
      same [of "h\<lparr>notifies_synchronously := False\<rparr>" "Suc n"]
    show ?thesis by simp
  next
    case logged
    from logged(2) [of "h\<lparr>notifies_synchronously := True\<rparr>" "Suc n"]
      logged(2) [of "h\<lparr>notifies_synchronously := False\<rparr>" "Suc n"]
    show ?thesis by simp
  next
    case (rewrite m p)
    from rewrite(2) have r1: "getConfig (h\<lparr>notifies_synchronously := True\<rparr>) = Inr True"
      and r2: "getConfig (h\<lparr>notifies_synchronously := False\<rparr>) = Inr True"
      by simp_all
    show ?thesis
      unfolding handle_trigger [OF rewrite(1) r1 rewrite(3-7), of n]
        handle_trigger [OF rewrite(1) r2 rewrite(3-7), of n]
      by simp
  qed
  from latched inner outer indep show ?thesis by blast
qed

text \<open>
  The simple round trip with an editor that notifies synchronously, and the handler
  called once more on the world it leaves.
\<close>

theorem C4_reentrancy_latch_witness:
  "isReplacing
     \<lparr>isReplacing = True, doc = [js ''see [[Note]] more''],
      cursor = \<lparr>line = 0, ch = 12\<rparr>, animationFrameCallbacks = 1,
      calls = [ReplaceRange (js ''[[Note]]'') \<lparr>line = 0, ch = 4\<rparr> \<lparr>line = 0, ch = 19\<rparr>,
               SetCursor \<lparr>line = 0, ch = 12\<rparr>, RequestAnimationFrame]\<rparr>
   \<and> handleEditorChange 1 parenthetical_host
        \<lparr>isReplacing = True, doc = [js ''see [[Note]] more''],
         cursor = \<lparr>line = 0, ch = 12\<rparr>, animationFrameCallbacks = 1,
         calls = [ReplaceRange (js ''[[Note]]'') \<lparr>line = 0, ch = 4\<rparr> \<lparr>line = 0, ch = 19\<rparr>,
                  SetCursor \<lparr>line = 0, ch = 12\<rparr>, RequestAnimationFrame]\<rparr> =
      Some (Returned,
        \<lparr>isReplacing = True, doc = [js ''see [[Note]] more''],
         cursor = \<lparr>line = 0, ch = 12\<rparr>, animationFrameCallbacks = 1,
         calls = [ReplaceRange (js ''[[Note]]'') \<lparr>line = 0, ch = 4\<rparr> \<lparr>line = 0, ch = 19\<rparr>,
                  SetCursor \<lparr>line = 0, ch = 12\<rparr>, RequestAnimationFrame]\<rparr>)
   \<and> notifies_synchronously parenthetical_host
   \<and> (\<exists>c w'. handleEditorChange 2 parenthetical_host
                 (loaded [js ''see [Note](Note.md) more''] \<lparr>line = 0, ch = 19\<rparr>) = Some (c, w')
          \<and> mutations w' = 1
          \<and> isReplacing w'
          \<and> animationFrameCallbacks w' = 1
          \<and> \<not> isReplacing (runAnimationFrame w'))"
proof -
  let ?w0 = "loaded [js ''see [Note](Note.md) more''] \<lparr>line = 0, ch = 19\<rparr>"
  let ?w1 = "\<lparr>isReplacing = True, doc = [js ''see [[Note]] more''],
      cursor = \<lparr>line = 0, ch = 12\<rparr>, animationFrameCallbacks = 1,
      calls = [ReplaceRange (js ''[[Note]]'') \<lparr>line = 0, ch = 4\<rparr> \<lparr>line = 0, ch = 19\<rparr>,
               SetCursor \<lparr>line = 0, ch = 12\<rparr>, RequestAnimationFrame]\<rparr>"
  have one: "(1::nat) = Suc 0" and two: "(2::nat) = Suc (Suc 0)" by simp_all
  have set: "isReplacing ?w1" by simp
  have again: "handleEditorChange 1 parenthetical_host ?w1 = Some (Returned, ?w1)"
    using C4_reentrancy_latch [of ?w1 0 parenthetical_host, THEN conjunct1, THEN mp, OF set]
    by (simp del: handleEditorChange.simps)
  have sync: "notifies_synchronously parenthetical_host"
    by (simp add: parenthetical_host_def)
  have run: "handleEditorChange 2 parenthetical_host ?w0 = Some (Returned, ?w1)"
    by code_simp
  have m0: "mutations ?w0 = 0" "animationFrameCallbacks ?w0 = 0"
    by (simp_all add: mutations_def loaded_def)
  have m1: "mutations ?w1 = 1" by (simp add: mutations_def)
  from C4_reentrancy_latch [of ?w0 0 parenthetical_host,
      THEN conjunct2, THEN conjunct2, THEN conjunct1]
  obtain c w' where r: "handleEditorChange (Suc (Suc 0)) parenthetical_host ?w0 = Some (c, w')"
    and flag: "isReplacing w' = (isReplacing ?w0 \<or> mutations w' = Suc (mutations ?w0))"
    and after: "mutations w' = Suc (mutations ?w0) \<longrightarrow>
               animationFrameCallbacks w' = Suc (animationFrameCallbacks ?w0)
             \<and> \<not> isReplacing (runAnimationFrame w')"
    by blast
  from r run have w': "w' = ?w1" unfolding two by simp
  with m1 m0 have once: "mutations w' = Suc (mutations ?w0)" by simp
  with flag after m0 have "mutations w' = 1 \<and> isReplacing w'
      \<and> animationFrameCallbacks w' = 1 \<and> \<not> isReplacing (runAnimationFrame w')"
    by simp
  with r have "\<exists>c w'. handleEditorChange 2 parenthetical_host ?w0 = Some (c, w')
          \<and> mutations w' = 1 \<and> isReplacing w'
          \<and> animationFrameCallbacks w' = 1 \<and> \<not> isReplacing (runAnimationFrame w')"
    unfolding two by blast
  with set again sync show ?thesis by blast
qed

end
